theory Spec2Isabelle
  imports Main
begin

section \<open>The task queue (utils/queue_manager.py)\<close>

text \<open>
  A queue entry is the dictionary \<^verbatim>\<open>{'user_id': .., 'data': .., 'timestamp': ..}\<close> that
  \<^verbatim>\<open>add_task\<close> builds. The clock is a parameter (\<open>now\<close>) of the operations that read it.
  \<^verbatim>\<open>TaskQueue\<close> holds the list \<^verbatim>\<open>queue\<close> and the dictionary \<^verbatim>\<open>processing\<close>
  (owner to \<^verbatim>\<open>{'started': ..}\<close>); every method runs under the lock, so each one is a
  single state transition.
\<close>

record 'd task =
  user_id :: int
  data :: 'd
  timestamp :: nat

record 'd task_queue =
  queue :: "'d task list"
  processing :: "int \<rightharpoonup> nat"

definition new_task_queue :: "'d task_queue" where
  "new_task_queue = \<lparr>queue = [], processing = Map.empty\<rparr>"

text \<open>The loop of \<^verbatim>\<open>add_task\<close> that looks for a queued task of the owner.\<close>

fun queued :: "'d task list \<Rightarrow> int \<Rightarrow> bool" where
  "queued [] uid = False"
| "queued (t # ts) uid = (if user_id t = uid then True else queued ts uid)"

definition is_processing :: "'d task_queue \<Rightarrow> int \<Rightarrow> bool" where
  "is_processing tq uid = (processing tq uid \<noteq> None)"

text \<open>
  \<^verbatim>\<open>add_task\<close>: the result is the returned integer and the queue afterwards.
  \<open>max_queue_size\<close> is \<^verbatim>\<open>config.MAX_QUEUE_SIZE\<close>.
\<close>

definition add_task ::
  "int \<Rightarrow> nat \<Rightarrow> 'd task_queue \<Rightarrow> int \<Rightarrow> 'd \<Rightarrow> int \<times> 'd task_queue" where
  "add_task max_queue_size now tq uid task_data =
     (if is_processing tq uid then (- 2, tq)
      else if queued (queue tq) uid then (- 2, tq)
      else if int (length (queue tq)) \<ge> max_queue_size then (- 1, tq)
      else
        let q = queue tq @ [\<lparr>user_id = uid, data = task_data, timestamp = now\<rparr>]
        in (int (length q), tq\<lparr>queue := q\<rparr>))"

definition get_next_task :: "'d task_queue \<Rightarrow> 'd task option \<times> 'd task_queue" where
  "get_next_task tq =
     (case queue tq of
        [] \<Rightarrow> (None, tq)
      | t # ts \<Rightarrow> (Some t, tq\<lparr>queue := ts\<rparr>))"

text \<open>The \<^verbatim>\<open>enumerate\<close> loop of \<^verbatim>\<open>get_position\<close>, from index \<open>idx\<close> on.\<close>

fun position_from :: "nat \<Rightarrow> 'd task list \<Rightarrow> int \<Rightarrow> int" where
  "position_from idx [] uid = 0"
| "position_from idx (t # ts) uid =
     (if user_id t = uid then int idx + 1 else position_from (Suc idx) ts uid)"

definition get_position :: "'d task_queue \<Rightarrow> int \<Rightarrow> int" where
  "get_position tq uid = position_from 0 (queue tq) uid"

definition set_processing :: "nat \<Rightarrow> 'd task_queue \<Rightarrow> int \<Rightarrow> bool \<Rightarrow> 'd task_queue" where
  "set_processing now tq uid status =
     (if status then tq\<lparr>processing := (processing tq)(uid \<mapsto> now)\<rparr>
      else tq\<lparr>processing := (processing tq)(uid := None)\<rparr>)"

definition get_queue_size :: "'d task_queue \<Rightarrow> int" where
  "get_queue_size tq = int (length (queue tq))"

definition clear_user :: "'d task_queue \<Rightarrow> int \<Rightarrow> 'd task_queue" where
  "clear_user tq uid =
     tq\<lparr>queue := filter (\<lambda>t. user_id t \<noteq> uid) (queue tq),
        processing := (processing tq)(uid := None)\<rparr>"

text \<open>
  The first step of a worker cycle that finds a task (main.py, \<^verbatim>\<open>QueueProcessor.start\<close>):
  \<^verbatim>\<open>get_next_task()\<close> and, with no suspension point in between,
  \<^verbatim>\<open>set_processing(user_id, True)\<close> for the owner of the task taken.
\<close>

definition worker_take :: "nat \<Rightarrow> 'd task_queue \<Rightarrow> 'd task option \<times> 'd task_queue" where
  "worker_take now tq =
     (case get_next_task tq of
        (None, tq1) \<Rightarrow> (None, tq1)
      | (Some t, tq1) \<Rightarrow> (Some t, set_processing now tq1 (user_id t) True))"

text \<open>
  The transitions the program makes on the shared queue: \<^verbatim>\<open>add_task\<close> from
  \<^verbatim>\<open>add_to_queue_direct\<close>, \<^verbatim>\<open>clear_user\<close> from \<^verbatim>\<open>cancel_command\<close>, the worker taking
  a task, and the worker's \<^verbatim>\<open>set_processing(user_id, False)\<close> in its \<^verbatim>\<open>finally\<close>.
  A reachable queue is the result of a finite sequence of them from the empty queue.
\<close>

datatype 'd queue_op =
  Add_task int 'd nat
| Clear_user int
| Worker_take nat
| Worker_done int

fun apply_op :: "int \<Rightarrow> 'd task_queue \<Rightarrow> 'd queue_op \<Rightarrow> 'd task_queue" where
  "apply_op cap tq (Add_task uid d now) = snd (add_task cap now tq uid d)"
| "apply_op cap tq (Clear_user uid) = clear_user tq uid"
| "apply_op cap tq (Worker_take now) = snd (worker_take now tq)"
| "apply_op cap tq (Worker_done uid) = set_processing 0 tq uid False"

definition run_ops :: "int \<Rightarrow> 'd queue_op list \<Rightarrow> 'd task_queue" where
  "run_ops cap ops = foldl (apply_op cap) new_task_queue ops"

text \<open>The number of live tasks of an owner: its queued entries, plus one when it is marked processing.\<close>

definition live_count :: "'d task_queue \<Rightarrow> int \<Rightarrow> nat" where
  "live_count tq uid =
     length (filter (\<lambda>t. user_id t = uid) (queue tq)) + (if is_processing tq uid then 1 else 0)"

definition queue_inv :: "'d task_queue \<Rightarrow> bool" where
  "queue_inv tq =
     (distinct (map user_id (queue tq)) \<and>
      list_all (\<lambda>t. \<not> is_processing tq (user_id t)) (queue tq))"

section \<open>Python values used by the program\<close>

text \<open>
  Exceptions are values. \<open>Failure\<close> is an exception (of class \<^verbatim>\<open>Exception\<close>) raised by a
  collaborator outside the repository: the chat transport, the extraction service, the
  user directory. \<open>Csv_error\<close> is the \<^verbatim>\<open>csv.Error\<close> of the reader. \<open>CSV_parse_error\<close> is the
  \<^verbatim>\<open>Exception("CSV parse error: ...")\<close> that \<^verbatim>\<open>parse_csv_file\<close> raises around any other
  one. \<open>CancelledError\<close> is \<^verbatim>\<open>asyncio.CancelledError\<close>, raised in an awaiting coroutine whose
  task is cancelled: the one exception here that is not of class \<^verbatim>\<open>Exception\<close>, so that
  \<^verbatim>\<open>except Exception\<close> lets it pass.
\<close>

datatype exn =
  KeyError string
| IndexError
| ValueError
| TypeError
| AttributeError
| Failure string
| Csv_error
| CSV_parse_error exn
| CancelledError

fun is_exception :: "exn \<Rightarrow> bool" where
  "is_exception CancelledError = False"
| "is_exception e = True"

text \<open>
  A Python \<^verbatim>\<open>str\<close> is a \<open>string\<close>; a \<open>char\<close> stands for a code point below 256.
  \<^verbatim>\<open>str.strip()\<close> removes leading and trailing whitespace; in this range the whitespace
  code points are 9 to 13, 28 to 32, 133 and 160.
\<close>

definition is_space :: "char \<Rightarrow> bool" where
  "is_space c =
     (let n = (of_char c :: nat)
      in (9 \<le> n \<and> n \<le> 13) \<or> (28 \<le> n \<and> n \<le> 32) \<or> n = 133 \<or> n = 160)"

definition strip :: "string \<Rightarrow> string" where
  "strip s = rev (dropWhile is_space (rev (dropWhile is_space s)))"

definition startswith :: "string \<Rightarrow> string \<Rightarrow> bool" where
  "startswith s p = (take (length p) s = p)"

text \<open>\<^verbatim>\<open>str(n)\<close> for an integer: decimal digits, with a minus sign when negative.\<close>

function str_nat :: "nat \<Rightarrow> string" where
  "str_nat n =
     (if n < 10 then [char_of (48 + n)]
      else str_nat (n div 10) @ [char_of (48 + n mod 10)])"
  by pat_completeness auto
termination
  by (relation "measure (\<lambda>n. n)") auto

declare str_nat.simps [simp del]

definition str_int :: "int \<Rightarrow> string" where
  "str_int i = (if i < 0 then CHR ''-'' # str_nat (nat (- i)) else str_nat (nat i))"

text \<open>
  \<^verbatim>\<open>int(s)\<close> for a string: surrounding whitespace is dropped, then an optional sign and
  decimal digits, where single underscores may separate digits. \<open>None\<close> is the
  \<^verbatim>\<open>ValueError\<close>. The whitespace that \<^verbatim>\<open>int\<close> drops is narrower than that of
  \<^verbatim>\<open>str.strip()\<close>: the code points 28 to 31 are not part of it.
\<close>

definition is_int_space :: "char \<Rightarrow> bool" where
  "is_int_space c =
     (let n = (of_char c :: nat)
      in (9 \<le> n \<and> n \<le> 13) \<or> n = 32 \<or> n = 133 \<or> n = 160)"

definition is_digit :: "char \<Rightarrow> bool" where
  "is_digit c = (48 \<le> (of_char c :: nat) \<and> (of_char c :: nat) \<le> 57)"

definition digit_val :: "char \<Rightarrow> nat" where
  "digit_val c = of_char c - 48"

fun py_digits :: "nat \<Rightarrow> string \<Rightarrow> nat option" where
  "py_digits acc [] = Some acc"
| "py_digits acc [c] = (if is_digit c then Some (10 * acc + digit_val c) else None)"
| "py_digits acc (c # d # ds) =
     (if is_digit c then py_digits (10 * acc + digit_val c) (d # ds)
      else if c = CHR ''_'' \<and> is_digit d then py_digits (10 * acc + digit_val d) ds
      else None)"

definition py_nat :: "string \<Rightarrow> nat option" where
  "py_nat s =
     (case s of
        [] \<Rightarrow> None
      | c # cs \<Rightarrow> if is_digit c then py_digits (digit_val c) cs else None)"

definition py_int :: "string \<Rightarrow> int option" where
  "py_int s =
     (case rev (dropWhile is_int_space (rev (dropWhile is_int_space s))) of
        [] \<Rightarrow> None
      | c # cs \<Rightarrow>
          if c = CHR ''-'' then map_option (\<lambda>n. - int n) (py_nat cs)
          else if c = CHR ''+'' then map_option int (py_nat cs)
          else map_option int (py_nat (c # cs)))"

section \<open>Questions and the row-based artifact (processors/csv_processor.py)\<close>

text \<open>
  A question is a dictionary with the keys below. Its \<^verbatim>\<open>options\<close> value is a Python list,
  a mutable object: where the program keeps and mutates the list that the caller passed,
  the field holds the address of the list in a store (\<open>heap\<close>), so that two references to
  one list see the same contents. A question that \<^verbatim>\<open>parse_csv_file\<close> builds holds a list
  of its own, written as the list itself.
\<close>

type_synonym addr = nat

type_synonym heap = "addr \<Rightarrow> string list"

record 'o question =
  question_description :: string
  options :: 'o
  correct_answer_index :: int
  correct_option :: string
  explanation :: string

text \<open>
  The artifact is a table: a list of rows, each a list of cells, the header row first.
  \<^verbatim>\<open>csv.DictWriter\<close> writes the header and then, for each dictionary, its values in the
  order of \<^verbatim>\<open>fieldnames\<close>; \<^verbatim>\<open>csv.DictReader\<close> takes the first row as the field names and
  turns every later non-empty row into a dictionary, with \<^verbatim>\<open>None\<close> for the fields a short
  row lacks. The quoting that the csv module applies to a cell on the way to the file and
  removes on the way back is not part of the model: a cell is read as it was written,
  unless it is longer than the reader's field size limit of 131072 characters, where the
  reader raises \<^verbatim>\<open>csv.Error\<close> on the row.
\<close>

type_synonym csv_table = "string list list"

datatype pyval = PyNone | PyStr string

type_synonym csv_row = "string \<rightharpoonup> pyval"

definition dict_row :: "string list \<Rightarrow> string list \<Rightarrow> csv_row" where
  "dict_row names cells =
     foldl (\<lambda>d key. d(key \<mapsto> PyNone))
       (foldl (\<lambda>d (key, cell). d(key \<mapsto> PyStr cell)) Map.empty (zip names cells))
       (drop (length cells) names)"

definition field_limit :: nat where
  "field_limit = 131072"

text \<open>The reader on one row of the file: the cells, or \<^verbatim>\<open>csv.Error\<close>.\<close>

definition read_cells :: "string list \<Rightarrow> exn + string list" where
  "read_cells cells =
     (if list_ex (\<lambda>cell. field_limit < length cell) cells then Inl Csv_error else Inr cells)"

text \<open>
  \<^verbatim>\<open>row.get(key)\<close> and \<^verbatim>\<open>row.get(key, default)\<close>; the truth value of the result, as
  \<open>Some\<close> of the string when it is a non-empty string and \<open>None\<close> when it is \<^verbatim>\<open>None\<close> or
  \<^verbatim>\<open>''\<close>.
\<close>

definition row_get :: "csv_row \<Rightarrow> string \<Rightarrow> pyval \<Rightarrow> pyval" where
  "row_get row key dflt = (case row key of None \<Rightarrow> dflt | Some v \<Rightarrow> v)"

fun truthy :: "pyval \<Rightarrow> string option" where
  "truthy PyNone = None"
| "truthy (PyStr s) = (if s = [] then None else Some s)"

definition option_keys :: "string list" where
  "option_keys = [''option1'', ''option2'', ''option3'', ''option4'', ''option5'']"

text \<open>
  The body of the loop of \<^verbatim>\<open>parse_csv_file\<close> for one row: \<open>Inr None\<close> is \<^verbatim>\<open>continue\<close>,
  \<open>Inl\<close> an exception that leaves the loop. \<^verbatim>\<open>int(None)\<close> raises \<^verbatim>\<open>TypeError\<close> and a
  string that is no integer \<^verbatim>\<open>ValueError\<close>; the bare \<^verbatim>\<open>except\<close> turns both into index 0.
  \<^verbatim>\<open>.strip()\<close> on \<^verbatim>\<open>None\<close> raises \<^verbatim>\<open>AttributeError\<close>.
\<close>

definition parse_row :: "csv_row \<Rightarrow> exn + string list question option" where
  "parse_row row =
     (case truthy (row_get row ''questions'' PyNone) of
        None \<Rightarrow> Inr None
      | Some text \<Rightarrow>
          let opts = List.map_filter (\<lambda>key. truthy (row_get row key PyNone)) option_keys
          in if length opts < 2 then Inr None
             else
               let correct_index =
                     (case row_get row ''answer'' (PyStr ''1'') of
                        PyNone \<Rightarrow> 0
                      | PyStr a \<Rightarrow>
                          (case py_int a of
                             None \<Rightarrow> 0
                           | Some answer_num \<Rightarrow>
                               max 0 (min (answer_num - 1) (int (length opts) - 1))))
               in (case row_get row ''explanation'' (PyStr '''') of
                     PyNone \<Rightarrow> Inl AttributeError
                   | PyStr e \<Rightarrow>
                       Inr (Some \<lparr>question_description = strip text,
                                  options = opts,
                                  correct_answer_index = correct_index,
                                  correct_option = [char_of (65 + correct_index)],
                                  explanation = strip e\<rparr>)))"

text \<open>
  The loop \<^verbatim>\<open>for row in csv_reader\<close> over the rows after the header: each row is read,
  an empty one is passed over by the reader, and the others go through the body. The
  first exception, of the reader or of the body, leaves the loop.
\<close>

fun parse_rows :: "string list \<Rightarrow> string list list \<Rightarrow> exn + string list question list" where
  "parse_rows names [] = Inr []"
| "parse_rows names (cells # rows) =
     (case read_cells cells of
        Inl e \<Rightarrow> Inl e
      | Inr cs \<Rightarrow>
          if cs = [] then parse_rows names rows
          else
            (case parse_row (dict_row names cs) of
               Inl e \<Rightarrow> Inl e
             | Inr None \<Rightarrow> parse_rows names rows
             | Inr (Some q) \<Rightarrow>
                 (case parse_rows names rows of
                    Inl e \<Rightarrow> Inl e
                  | Inr qs \<Rightarrow> Inr (q # qs))))"

text \<open>
  \<^verbatim>\<open>parse_csv_file\<close> on the table of the decoded file. The header is read when the loop
  starts. Every exception of the loop is of class \<^verbatim>\<open>Exception\<close> and is raised again as
  the parse error.
\<close>

definition parse_csv_file :: "csv_table \<Rightarrow> exn + string list question list" where
  "parse_csv_file table =
     (case table of
        [] \<Rightarrow> Inr []
      | header # rows \<Rightarrow>
          (case read_cells header of
             Inl e \<Rightarrow> Inl (CSV_parse_error e)
           | Inr names \<Rightarrow>
               (case parse_rows names rows of
                  Inl e \<Rightarrow> Inl (CSV_parse_error e)
                | Inr questions \<Rightarrow> Inr questions)))"

text \<open>\<^verbatim>\<open>while len(opts) < 5: opts.append('')\<close>, as the contents of the list afterwards.\<close>

function pad_options :: "string list \<Rightarrow> string list" where
  "pad_options opts = (if length opts < 5 then pad_options (opts @ ['''']) else opts)"
  by pat_completeness auto
termination
  by (relation "measure (\<lambda>opts. 5 - length opts)") auto

declare pad_options.simps [simp del]

definition fieldnames :: "string list" where
  "fieldnames =
     [''questions'', ''option1'', ''option2'', ''option3'', ''option4'', ''option5'',
      ''answer'', ''explanation'', ''type'', ''section'']"

text \<open>The dictionary given to \<^verbatim>\<open>writerow\<close>, as its cells in the order of \<open>fieldnames\<close>.\<close>

definition question_row :: "string list \<Rightarrow> addr question \<Rightarrow> string list" where
  "question_row opts q =
     (let correct_idx = correct_answer_index q
      in [question_description q,
          (if length opts > 0 then opts ! 0 else ''''),
          (if length opts > 1 then opts ! 1 else ''''),
          (if length opts > 2 then opts ! 2 else ''''),
          (if length opts > 3 then opts ! 3 else ''''),
          (if length opts > 4 then opts ! 4 else ''''),
          (if correct_idx \<ge> 0 then str_int (correct_idx + 1) else ''''),
          explanation q,
          ''1'',
          ''1''])"

text \<open>
  The loop of \<^verbatim>\<open>questions_to_csv\<close>: \<^verbatim>\<open>opts\<close> is the question's own list, so the padding is
  a store update at its address, visible through every reference to that list.
\<close>

fun write_rows :: "heap \<Rightarrow> addr question list \<Rightarrow> heap \<times> string list list" where
  "write_rows h [] = (h, [])"
| "write_rows h (q # qs) =
     (let opts = pad_options (h (options q));
          h1 = h(options q := opts);
          (h2, rows) = write_rows h1 qs
      in (h2, question_row opts q # rows))"

text \<open>
  Files are a map from paths to contents: an uploaded raw input, or an artifact.
  \<^verbatim>\<open>questions_to_csv\<close> returns the store and the files afterwards.
\<close>

datatype stored_file = Raw_input | Artifact csv_table

type_synonym files = "string \<rightharpoonup> stored_file"

definition questions_to_csv ::
  "heap \<Rightarrow> files \<Rightarrow> addr question list \<Rightarrow> string \<Rightarrow> heap \<times> files" where
  "questions_to_csv h fs questions output_path =
     (let (h', rows) = write_rows h questions
      in (h', fs(output_path \<mapsto> Artifact (fieldnames # rows))))"

text \<open>
  Re-parsing the artifact stored at a path, as \<^verbatim>\<open>handle_csv\<close> does with an uploaded file:
  the table is read back and given to \<^verbatim>\<open>parse_csv_file\<close>.
\<close>

definition parse_artifact :: "files \<Rightarrow> string \<Rightarrow> exn + string list question list" where
  "parse_artifact fs path =
     (case fs path of
        Some (Artifact table) \<Rightarrow> parse_csv_file table
      | _ \<Rightarrow> Inl (Failure ''not an artifact''))"

text \<open>
  The questions the round-trip property is about: non-empty text, 2 to 5 options, all
  non-empty, and a correct index within the options; and, for the reader, no text, option
  or explanation longer than the field size limit.
\<close>

definition well_formed :: "heap \<Rightarrow> addr question \<Rightarrow> bool" where
  "well_formed h q =
     (question_description q \<noteq> [] \<and>
      2 \<le> length (h (options q)) \<and> length (h (options q)) \<le> 5 \<and>
      list_all (\<lambda>s. s \<noteq> []) (h (options q)) \<and>
      0 \<le> correct_answer_index q \<and> correct_answer_index q < int (length (h (options q))) \<and>
      length (question_description q) \<le> field_limit \<and>
      list_all (\<lambda>s. length s \<le> field_limit) (h (options q)) \<and>
      length (explanation q) \<le> field_limit)"

text \<open>What a re-parsed question is expected to be, given the one that was written.\<close>

definition reparsed :: "heap \<Rightarrow> addr question \<Rightarrow> string list question" where
  "reparsed h q =
     \<lparr>question_description = strip (question_description q),
      options = h (options q),
      correct_answer_index = correct_answer_index q,
      correct_option = [char_of (65 + correct_answer_index q)],
      explanation = strip (explanation q)\<rparr>"

text \<open>
  Two concrete questions, with the store that holds their option lists; and a question
  whose text is one character longer than the field size limit, with options at address 0.
\<close>

definition long_question :: "addr question" where
  "long_question =
     \<lparr>question_description = replicate (Suc field_limit) CHR ''a'', options = 0,
      correct_answer_index = 0, correct_option = ''A'', explanation = []\<rparr>"

definition example_heap :: heap where
  "example_heap = (\<lambda>a. [])(0 := [''x'', ''y''], 1 := [''p'', ''q'', ''r''])"

definition spaced_question :: "addr question" where
  "spaced_question =
     \<lparr>question_description = '' a'', options = 0, correct_answer_index = 0,
      correct_option = ''A'', explanation = ''''\<rparr>"

definition plain_question :: "addr question" where
  "plain_question =
     \<lparr>question_description = ''b'', options = 1, correct_answer_index = 2,
      correct_option = ''C'', explanation = ''because''\<rparr>"

section \<open>The shared state and the collaborators (bot/handlers.py, bot/content_processor.py)\<close>

text \<open>
  A session is the dictionary \<^verbatim>\<open>user_states[user_id]\<close>; every key the program writes is
  an optional field. The \<^verbatim>\<open>questions\<close> of a session are references to the question
  dictionaries the pipeline produced, so their option lists are read through the store.
\<close>

record session =
  s_questions :: "addr question list option"
  s_session_id :: "string option"
  s_csv_path :: "string option"
  s_source :: "string option"
  s_content_type :: "string option"
  s_content_paths :: "string list option"
  s_mode :: "string option"
  s_selected_group :: "int option"
  s_post_session :: "string option"
  s_waiting_for :: "string option"

definition empty_session :: session where
  "empty_session =
     \<lparr>s_questions = None, s_session_id = None, s_csv_path = None, s_source = None,
      s_content_type = None, s_content_paths = None, s_mode = None,
      s_selected_group = None, s_post_session = None, s_waiting_for = None\<rparr>"

text \<open>The payload of a task, as \<^verbatim>\<open>add_to_queue_direct\<close> builds it (the transport handle left out).\<close>

record task_data =
  content_type :: string
  content_paths :: "string list"
  page_range :: "(nat \<times> nat) option"
  mode :: string

text \<open>The texts the bot shows, and the calls it makes on collaborators outside the model.\<close>

datatype message =
  Processing_pdf
| Processing_images
| No_questions_found
| Questions_ready nat "string list"
| Done_questions nat
| Error_message exn
| Posting_quizzes nat
| Complete nat nat
| Session_expired
| No_questions_available
| Mode_adding string
| Queue_full
| Already_queued
| Queued_position int
| No_destinations
| Select_destination "string list"
| Posting_to_channel
| Send_topic_id
| Send_channel_format
| Send_group_format
| No_channels
| No_groups
| Manage "string list"
| Deleted
| Access_denied
| Pdf_or_csv_only
| Task_in_progress
| Downloading
| Pdf_received "string list"

datatype action =
  Send_message int message
| Reply_text message
| Edit_text message
| Send_document int string message
| Answer_query
| Answer_query_with message
| Download string
| Delegated string

text \<open>
  The collaborators, as parameters. \<open>raises\<close> says which outbound call fails, and with
  what exception. \<open>process_images_parallel\<close> is the extraction: it returns the question
  dictionaries and the store with their freshly built option lists. \<open>post_quiz\<close> is the
  outcome of one quiz creation. The rest are the configuration, the clock and the user
  directory. The extraction and the batch poster are handed a progress closure that edits
  the status message and swallows every failure of that edit; the log \<open>outbox\<close> below
  does not record these progress edits.
\<close>

record env =
  raises :: "action \<Rightarrow> exn option"
  pdf_to_images :: "string \<Rightarrow> (nat \<times> nat) option \<Rightarrow> exn + nat list"
  load_image :: "string \<Rightarrow> exn + nat"
  process_images_parallel :: "nat list \<Rightarrow> string \<Rightarrow> heap \<Rightarrow> exn + addr question list \<times> heap"
  post_quiz :: "int \<Rightarrow> int option \<Rightarrow> string list question \<Rightarrow> string \<times> string \<Rightarrow> exn option"
  strftime_now :: string
  clock :: nat
  output_dir :: string
  temp_dir :: string
  max_queue_size :: int
  is_authorized :: "int \<Rightarrow> bool"
  get_user_settings :: "int \<Rightarrow> exn + string \<times> string"
  get_user_channels :: "int \<Rightarrow> (int \<times> string) list"
  get_user_groups :: "int \<Rightarrow> (int \<times> string) list"

record world =
  user_states :: "int \<rightharpoonup> session"
  task_queue :: "task_data task_queue"
  file_system :: files
  store :: heap
  outbox :: "action list"

text \<open>
  A handler is a function from the world to its result, an exception or a value, and the
  world afterwards; what it changed before an exception stays changed.
\<close>

type_synonym 'a prog = "world \<Rightarrow> (exn + 'a) \<times> world"

definition ret :: "'a \<Rightarrow> 'a prog" where
  "ret x = (\<lambda>w. (Inr x, w))"

definition raise :: "exn \<Rightarrow> 'a prog" where
  "raise e = (\<lambda>w. (Inl e, w))"

definition lift :: "exn + 'a \<Rightarrow> 'a prog" where
  "lift r = (\<lambda>w. (r, w))"

definition then_do :: "'a prog \<Rightarrow> ('a \<Rightarrow> 'b prog) \<Rightarrow> 'b prog" where
  "then_do m f = (\<lambda>w. case m w of (Inl e, w1) \<Rightarrow> (Inl e, w1) | (Inr x, w1) \<Rightarrow> f x w1)"

text \<open>\<^verbatim>\<open>try: ... except Exception as e: ...\<close>: an exception of another class passes.\<close>

definition try_except :: "'a prog \<Rightarrow> (exn \<Rightarrow> 'a prog) \<Rightarrow> 'a prog" where
  "try_except m handler =
     (\<lambda>w. case m w of
            (Inl e, w1) \<Rightarrow> if is_exception e then handler e w1 else (Inl e, w1)
          | (Inr x, w1) \<Rightarrow> (Inr x, w1))"

definition modify :: "(world \<Rightarrow> world) \<Rightarrow> unit prog" where
  "modify f = (\<lambda>w. (Inr (), f w))"

text \<open>An outbound call: it raises, or it happens and is appended to the log.\<close>

definition call :: "env \<Rightarrow> action \<Rightarrow> unit prog" where
  "call env a =
     (\<lambda>w. case raises env a of
            Some e \<Rightarrow> (Inl e, w)
          | None \<Rightarrow> (Inr (), w\<lparr>outbox := outbox w @ [a]\<rparr>))"

section \<open>The content pipeline (bot/content_processor.py, \<^verbatim>\<open>process_content\<close>)\<close>

fun load_images :: "env \<Rightarrow> string list \<Rightarrow> exn + nat list" where
  "load_images env [] = Inr []"
| "load_images env (p # ps) =
     (case load_image env p of
        Inl e \<Rightarrow> Inl e
      | Inr i \<Rightarrow>
          (case load_images env ps of
             Inl e \<Rightarrow> Inl e
           | Inr imgs \<Rightarrow> Inr (i # imgs)))"

definition run_extraction :: "env \<Rightarrow> nat list \<Rightarrow> string \<Rightarrow> addr question list prog" where
  "run_extraction env images md =
     (\<lambda>w. case process_images_parallel env images md (store w) of
            Inl e \<Rightarrow> (Inl e, w)
          | Inr (questions, h) \<Rightarrow> (Inr questions, w\<lparr>store := h\<rparr>))"

text \<open>\<^verbatim>\<open>for p in content_paths: if p.exists(): p.unlink(missing_ok=True)\<close>\<close>

fun unlink_all :: "string list \<Rightarrow> files \<Rightarrow> files" where
  "unlink_all [] f = f"
| "unlink_all (p # ps) f = unlink_all ps (if f p \<noteq> None then f(p := None) else f)"

text \<open>The body of the \<^verbatim>\<open>try\<close> of \<^verbatim>\<open>process_content\<close>.\<close>

definition process_content_body ::
  "env \<Rightarrow> int \<Rightarrow> string \<Rightarrow> string list \<Rightarrow> (nat \<times> nat) option \<Rightarrow> string \<Rightarrow> unit prog" where
  "process_content_body env uid ctype paths prange md =
     then_do
       (if ctype = ''pdf'' then
          then_do (call env (Send_message uid Processing_pdf)) (\<lambda>_.
            case paths of
              [] \<Rightarrow> raise IndexError
            | p # _ \<Rightarrow> lift (pdf_to_images env p prange))
        else
          then_do (call env (Send_message uid Processing_images)) (\<lambda>_.
            lift (load_images env paths)))
       (\<lambda>images.
          then_do (run_extraction env images md) (\<lambda>questions.
            if questions = [] then call env (Edit_text No_questions_found)
            else
              let timestamp = strftime_now env;
                  session_id = ''gen_'' @ str_int uid @ ''_'' @ timestamp;
                  csv_path = output_dir env @ ''/questions_'' @ session_id @ ''.csv''
              in
                then_do
                  (modify (\<lambda>w.
                     let (h, f) = questions_to_csv (store w) (file_system w) questions csv_path
                     in w\<lparr>store := h, file_system := f\<rparr>)) (\<lambda>_.
                then_do
                  (modify (\<lambda>w. w\<lparr>user_states := (user_states w)(uid \<mapsto>
                     empty_session\<lparr>s_questions := Some questions,
                                    s_session_id := Some session_id,
                                    s_csv_path := Some csv_path,
                                    s_source := Some ''generated''\<rparr>)\<rparr>)) (\<lambda>_.
                then_do
                  (call env (Send_document uid csv_path
                     (Questions_ready (length questions)
                        [''post_'' @ session_id, ''export_pdf_'' @ session_id]))) (\<lambda>_.
                then_do
                  (call env (Edit_text (Done_questions (length questions)))) (\<lambda>_.
                modify (\<lambda>w. w\<lparr>file_system := unlink_all paths (file_system w)\<rparr>)))))))"

definition process_content ::
  "env \<Rightarrow> int \<Rightarrow> string \<Rightarrow> string list \<Rightarrow> (nat \<times> nat) option \<Rightarrow> string \<Rightarrow> unit prog" where
  "process_content env uid ctype paths prange md =
     try_except (process_content_body env uid ctype paths prange md)
       (\<lambda>e. call env (Send_message uid (Error_message e)))"

text \<open>
  The first status message and the result of the Normalize stage, as functions of the
  task; and the path of the artifact of a run.
\<close>

definition first_message :: "string \<Rightarrow> message" where
  "first_message ctype = (if ctype = ''pdf'' then Processing_pdf else Processing_images)"

definition normalized :: "env \<Rightarrow> string \<Rightarrow> string list \<Rightarrow> (nat \<times> nat) option \<Rightarrow> exn + nat list" where
  "normalized env ctype paths prange =
     (if ctype = ''pdf'' then
        (case paths of [] \<Rightarrow> Inl IndexError | p # ps \<Rightarrow> pdf_to_images env p prange)
      else load_images env paths)"

definition generated_id :: "env \<Rightarrow> int \<Rightarrow> string" where
  "generated_id env uid = ''gen_'' @ str_int uid @ ''_'' @ strftime_now env"

definition artifact_path :: "env \<Rightarrow> int \<Rightarrow> string" where
  "artifact_path env uid = output_dir env @ ''/questions_'' @ generated_id env uid @ ''.csv''"

section \<open>The posting pipeline (bot/content_processor.py, \<^verbatim>\<open>post_quizzes_to_destination\<close>)\<close>

text \<open>A question as the poster reads it: the option list is the list at its address.\<close>

definition deref :: "heap \<Rightarrow> addr question \<Rightarrow> string list question" where
  "deref h q =
     \<lparr>question_description = question_description q,
      options = h (options q),
      correct_answer_index = correct_answer_index q,
      correct_option = correct_option q,
      explanation = explanation q\<rparr>"

text \<open>
  Modelled from the spec: \<^verbatim>\<open>QuizPoster.post_quizzes_batch\<close> (processors/quiz_poster.py is
  not among the sources). It posts each question in order; a failed post is caught and
  counted and the next question is posted; the result is the pair of the success and the
  failure count. The progress callback that it fires after each post is the closure
  described above, and its edits are not recorded.
\<close>

fun post_quizzes_batch ::
  "env \<Rightarrow> int \<Rightarrow> string list question list \<Rightarrow> string \<times> string \<Rightarrow> int option \<Rightarrow> nat \<times> nat" where
  "post_quizzes_batch env chat_id [] settings thread_id = (0, 0)"
| "post_quizzes_batch env chat_id (q # qs) settings thread_id =
     (let (success, failed) = post_quizzes_batch env chat_id qs settings thread_id
      in case post_quiz env chat_id thread_id q settings of
           None \<Rightarrow> (Suc success, failed)
         | Some e \<Rightarrow> (success, Suc failed))"

definition post_quizzes_to_destination :: "env \<Rightarrow> int \<Rightarrow> int \<Rightarrow> int option \<Rightarrow> unit prog" where
  "post_quizzes_to_destination env uid chat_id thread_id =
     (\<lambda>w. case user_states w uid of
            None \<Rightarrow> (Inr (), w)
          | Some sess \<Rightarrow>
              then_do
                (case s_questions sess of
                   None \<Rightarrow> raise (KeyError ''questions'')
                 | Some questions \<Rightarrow> ret questions) (\<lambda>questions.
              then_do (lift (get_user_settings env uid)) (\<lambda>settings.
              then_do (call env (Edit_text (Posting_quizzes (length questions)))) (\<lambda>_.
              then_do
                (\<lambda>w1. (Inr (post_quizzes_batch env chat_id (map (deref (store w1)) questions)
                           settings thread_id), w1)) (\<lambda>result.
              then_do (call env (Edit_text (Complete (fst result) (snd result)))) (\<lambda>_.
              modify (\<lambda>w2.
                if user_states w2 uid \<noteq> None
                then w2\<lparr>user_states := (user_states w2)(uid := None)\<rparr>
                else w2)))))) w)"

text \<open>The questions of an owner's session as the posting pipeline reads them.\<close>

definition session_questions :: "world \<Rightarrow> int \<Rightarrow> string list question list option" where
  "session_questions w uid =
     (case user_states w uid of
        None \<Rightarrow> None
      | Some sess \<Rightarrow> map_option (map (deref (store w))) (s_questions sess))"

section \<open>Admission from a session (bot/handlers.py)\<close>

definition endswith :: "string \<Rightarrow> string \<Rightarrow> bool" where
  "endswith s p = (length p \<le> length s \<and> drop (length s - length p) s = p)"

text \<open>\<^verbatim>\<open>s.split(c)\<close> and \<^verbatim>\<open>sep.join(parts)\<close>.\<close>

fun split_on :: "char \<Rightarrow> string \<Rightarrow> string list" where
  "split_on c [] = [[]]"
| "split_on c (x # xs) =
     (if x = c then [] # split_on c xs
      else (case split_on c xs of
              [] \<Rightarrow> [[x]]
            | p # ps \<Rightarrow> (x # p) # ps))"

fun join_with :: "string \<Rightarrow> string list \<Rightarrow> string" where
  "join_with sep [] = []"
| "join_with sep [p] = p"
| "join_with sep (p # q # ps) = p @ sep @ join_with sep (q # ps)"

definition add_to_queue_direct :: "env \<Rightarrow> int \<Rightarrow> (nat \<times> nat) option \<Rightarrow> unit prog" where
  "add_to_queue_direct env uid prange =
     (\<lambda>w. case user_states w uid of
            None \<Rightarrow> (Inr (), w)
          | Some sess \<Rightarrow>
              let md = (case s_mode sess of None \<Rightarrow> ''extraction'' | Some m \<Rightarrow> m)
              in (case s_content_type sess of
                    None \<Rightarrow> (Inl (KeyError ''content_type''), w)
                  | Some ctype \<Rightarrow>
                      (case s_content_paths sess of
                         None \<Rightarrow> (Inl (KeyError ''content_paths''), w)
                       | Some paths \<Rightarrow>
                           let (pos, q) =
                                 add_task (max_queue_size env) (clock env) (task_queue w) uid
                                   \<lparr>content_type = ctype, content_paths = paths,
                                    page_range = prange, mode = md\<rparr>;
                               msg = (if pos = - 1 then Queue_full
                                      else if pos = - 2 then Already_queued
                                      else Queued_position pos)
                           in call env (Send_message uid msg) (w\<lparr>task_queue := q\<rparr>))))"

text \<open>The decorator \<^verbatim>\<open>require_auth\<close> (utils/auth.py).\<close>

definition require_auth :: "env \<Rightarrow> int \<Rightarrow> unit prog \<Rightarrow> unit prog" where
  "require_auth env uid body =
     (if \<not> is_authorized env uid then call env (Reply_text Access_denied) else body)"

text \<open>
  \<^verbatim>\<open>handle_document\<close> for a document named \<open>file_name\<close>. The CSV import
  (\<^verbatim>\<open>handle_csv\<close>) is one opaque call: no property below depends on it.
\<close>

definition handle_document :: "env \<Rightarrow> int \<Rightarrow> string \<Rightarrow> unit prog" where
  "handle_document env uid file_name =
     require_auth env uid
       (if endswith file_name ''.csv'' then call env (Delegated ''handle_csv'')
        else if \<not> endswith file_name ''.pdf'' then call env (Reply_text Pdf_or_csv_only)
        else
          (\<lambda>w. if user_states w uid \<noteq> None \<or> is_processing (task_queue w) uid
                then call env (Reply_text Task_in_progress) w
                else
                  then_do (call env (Reply_text Downloading)) (\<lambda>_.
                    try_except
                      (let path = temp_dir env @ ''/'' @ str_int uid @ ''_'' @ file_name
                       in then_do (call env (Download path)) (\<lambda>_.
                          then_do
                            (modify (\<lambda>w1. w1\<lparr>file_system := (file_system w1)(path \<mapsto> Raw_input)\<rparr>))
                            (\<lambda>_.
                          then_do
                            (modify (\<lambda>w1. w1\<lparr>user_states := (user_states w1)(uid \<mapsto>
                               empty_session\<lparr>s_content_type := Some ''pdf'',
                                              s_content_paths := Some [path]\<rparr>)\<rparr>))
                            (\<lambda>_.
                          call env (Edit_text (Pdf_received [''mode_extraction'', ''mode_generation'']))))))
                      (\<lambda>e. call env (Edit_text (Error_message e)))) w))"

section \<open>Button callbacks (bot/callbacks.py, \<^verbatim>\<open>handle_callback\<close>)\<close>

text \<open>\<^verbatim>\<open>parts[i]\<close>, raising \<^verbatim>\<open>IndexError\<close> out of range.\<close>

definition part :: "string list \<Rightarrow> nat \<Rightarrow> string prog" where
  "part parts i = (if i < length parts then ret (parts ! i) else raise IndexError)"

text \<open>\<^verbatim>\<open>int(s)\<close>, raising \<^verbatim>\<open>ValueError\<close>.\<close>

definition to_int :: "string \<Rightarrow> int prog" where
  "to_int s = (case py_int s of None \<Rightarrow> raise ValueError | Some n \<Rightarrow> ret n)"

text \<open>
  \<^verbatim>\<open>user_states[user_id][key] = value\<close>: a \<^verbatim>\<open>KeyError\<close> for the user when there is no
  session.
\<close>

definition update_session :: "int \<Rightarrow> (session \<Rightarrow> session) \<Rightarrow> unit prog" where
  "update_session uid f =
     (\<lambda>w. case user_states w uid of
            None \<Rightarrow> (Inl (KeyError (str_int uid)), w)
          | Some sess \<Rightarrow> (Inr (), w\<lparr>user_states := (user_states w)(uid \<mapsto> f sess)\<rparr>))"

text \<open>The branches \<^verbatim>\<open>export_pdf_\<close> and \<^verbatim>\<open>csv_to_pdf_\<close>.\<close>

definition callback_export_pdf :: "env \<Rightarrow> int \<Rightarrow> unit prog" where
  "callback_export_pdf env uid =
     (\<lambda>w. case user_states w uid of
            None \<Rightarrow> call env (Edit_text Session_expired) w
          | Some sess \<Rightarrow>
              (case s_questions sess of
                 None \<Rightarrow> call env (Answer_query_with No_questions_available) w
               | Some [] \<Rightarrow> call env (Answer_query_with No_questions_available) w
               | Some (q # qs) \<Rightarrow> call env (Delegated ''pdf_exporter.handle_pdf_export_start'') w))"

definition callback_mode :: "env \<Rightarrow> int \<Rightarrow> string \<Rightarrow> unit prog" where
  "callback_mode env uid cdata =
     then_do (part (split_on CHR ''_'' cdata) 1) (\<lambda>md.
       (\<lambda>w. case user_states w uid of
              None \<Rightarrow> call env (Edit_text Session_expired) w
            | Some sess \<Rightarrow>
                then_do (update_session uid (\<lambda>s. s\<lparr>s_mode := Some md\<rparr>)) (\<lambda>_.
                then_do (call env (Edit_text (Mode_adding md))) (\<lambda>_.
                add_to_queue_direct env uid None)) w))"

definition callback_post :: "env \<Rightarrow> int \<Rightarrow> string \<Rightarrow> unit prog" where
  "callback_post env uid cdata =
     (let session_id = drop 5 cdata
      in (\<lambda>w. case user_states w uid of
                None \<Rightarrow> call env (Edit_text Session_expired) w
              | Some sess \<Rightarrow>
                  let channels = get_user_channels env uid;
                      groups = get_user_groups env uid
                  in if channels = [] \<and> groups = []
                     then call env (Edit_text No_destinations) w
                     else
                       call env (Edit_text (Select_destination
                         (map (\<lambda>(channel_id, name).
                                 ''dest_ch_'' @ str_int channel_id @ ''_'' @ session_id) channels @
                          map (\<lambda>(group_id, name).
                                 ''dest_gr_'' @ str_int group_id @ ''_'' @ session_id) groups))) w))"

definition callback_dest_ch :: "env \<Rightarrow> int \<Rightarrow> string \<Rightarrow> unit prog" where
  "callback_dest_ch env uid cdata =
     (let parts = split_on CHR ''_'' cdata
      in then_do (part parts 2) (\<lambda>p.
         then_do (to_int p) (\<lambda>channel_id.
         then_do (call env (Edit_text Posting_to_channel)) (\<lambda>_.
         post_quizzes_to_destination env uid channel_id None))))"

definition callback_dest_gr :: "env \<Rightarrow> int \<Rightarrow> string \<Rightarrow> unit prog" where
  "callback_dest_gr env uid cdata =
     (let parts = split_on CHR ''_'' cdata
      in then_do (part parts 2) (\<lambda>p.
         then_do (to_int p) (\<lambda>group_id.
         let session_id = join_with ''_'' (drop 3 parts)
         in then_do (update_session uid (\<lambda>s. s\<lparr>s_selected_group := Some group_id\<rparr>)) (\<lambda>_.
            then_do (update_session uid (\<lambda>s. s\<lparr>s_post_session := Some session_id\<rparr>)) (\<lambda>_.
            then_do (call env (Edit_text Send_topic_id)) (\<lambda>_.
            update_session uid (\<lambda>s. s\<lparr>s_waiting_for := Some ''topic_id''\<rparr>)))))))"

text \<open>
  The dispatch of \<^verbatim>\<open>handle_callback\<close>, in the order of the source. The bodies of the
  poll-collection, PDF-format, channel-management and delete branches are single opaque
  calls into their modules.
\<close>

definition handle_callback :: "env \<Rightarrow> int \<Rightarrow> string \<Rightarrow> unit prog" where
  "handle_callback env uid cdata =
     then_do (call env Answer_query) (\<lambda>_.
       if cdata = ''poll_export_csv'' then call env (Delegated ''poll_export_csv'')
       else if cdata = ''poll_export_pdf'' then call env (Delegated ''poll_export_pdf'')
       else if cdata = ''poll_clear'' then call env (Delegated ''poll_clear'')
       else if cdata = ''poll_stop'' then call env (Delegated ''poll_stop'')
       else if startswith cdata ''export_pdf_'' then callback_export_pdf env uid
       else if startswith cdata ''pdf_format_'' then
         then_do (to_int (last (split_on CHR ''_'' cdata))) (\<lambda>format_num.
           call env (Delegated ''pdf_format''))
       else if startswith cdata ''csv_to_pdf_'' then callback_export_pdf env uid
       else if startswith cdata ''mode_'' then callback_mode env uid cdata
       else if startswith cdata ''post_'' then callback_post env uid cdata
       else if startswith cdata ''dest_ch_'' then callback_dest_ch env uid cdata
       else if startswith cdata ''dest_gr_'' then callback_dest_gr env uid cdata
       else if cdata = ''settings_add_channel'' then
         then_do (call env (Edit_text Send_channel_format)) (\<lambda>_.
           modify (\<lambda>w. w\<lparr>user_states := (user_states w)(uid \<mapsto>
             empty_session\<lparr>s_waiting_for := Some ''add_channel''\<rparr>)\<rparr>))
       else if cdata = ''settings_add_group'' then
         then_do (call env (Edit_text Send_group_format)) (\<lambda>_.
           modify (\<lambda>w. w\<lparr>user_states := (user_states w)(uid \<mapsto>
             empty_session\<lparr>s_waiting_for := Some ''add_group''\<rparr>)\<rparr>))
       else if cdata = ''settings_manage_channels'' then
         call env (Delegated ''settings_manage_channels'')
       else if cdata = ''settings_manage_groups'' then
         call env (Delegated ''settings_manage_groups'')
       else if startswith cdata ''del_ch_'' then call env (Delegated ''del_ch'')
       else if startswith cdata ''del_gr_'' then call env (Delegated ''del_gr'')
       else ret ())"

section \<open>The worker loop (main.py, \<^verbatim>\<open>QueueProcessor.start\<close>)\<close>

text \<open>
  The calls the worker makes, in the order it makes them. \<open>Sleep\<close> is in milliseconds.
\<close>

datatype worker_call =
  Get_next_task
| Set_processing int bool
| Process_content int
| Print exn
| Sleep nat

text \<open>
  One pass of the body of \<^verbatim>\<open>while self.running\<close>: the calls made, the exception that
  leaves the pass if there is one, and the world. The pipeline is a parameter with the
  signature of \<^verbatim>\<open>process_content\<close>; in the program it is \<open>process_content env\<close>. Since
  the call is awaited, the world it returns also carries whatever the handlers did in the
  meantime. An exception of class \<^verbatim>\<open>Exception\<close> is printed by the inner \<^verbatim>\<open>except\<close>
  and the pass goes on to its pause. Any other exception passes the inner \<^verbatim>\<open>except\<close>
  and, after the \<^verbatim>\<open>finally\<close>, the outer one as well, and leaves the pass. The
  \<^verbatim>\<open>finally\<close> runs on every path. Nothing else in the body raises an exception of class
  \<^verbatim>\<open>Exception\<close>, so the handler of the outer \<^verbatim>\<open>except\<close> is never entered and is left
  out.
\<close>

type_synonym pipeline =
  "int \<Rightarrow> string \<Rightarrow> string list \<Rightarrow> (nat \<times> nat) option \<Rightarrow> string \<Rightarrow> unit prog"

definition cycle :: "env \<Rightarrow> pipeline \<Rightarrow> world \<Rightarrow> worker_call list \<times> exn option \<times> world" where
  "cycle env process w =
     (case worker_take (clock env) (task_queue w) of
        (None, q1) \<Rightarrow> ([Get_next_task, Sleep 1000], None, w\<lparr>task_queue := q1\<rparr>)
      | (Some t, q1) \<Rightarrow>
          let uid = user_id t;
              task_data = data t;
              w1 = w\<lparr>task_queue := q1\<rparr>;
              (r, w2) = process uid (content_type task_data) (content_paths task_data)
                          (page_range task_data) (mode task_data) w1;
              w3 = w2\<lparr>task_queue := set_processing (clock env) (task_queue w2) uid False\<rparr>;
              begun = [Get_next_task, Set_processing uid True, Process_content uid]
          in (case r of
                Inr u \<Rightarrow> (begun @ [Set_processing uid False, Sleep 500], None, w3)
              | Inl e \<Rightarrow>
                  if is_exception e
                  then (begun @ [Print e, Set_processing uid False, Sleep 500], None, w3)
                  else (begun @ [Set_processing uid False], Some e, w3)))"

text \<open>The world a pass leaves, from which the next pass starts.\<close>

definition next_world :: "env \<Rightarrow> pipeline \<Rightarrow> world \<Rightarrow> world" where
  "next_world env process w = snd (snd (cycle env process w))"

text \<open>
  The loop, for at most \<open>n\<close> passes. The result is the calls made, how the loop stands
  when the passes are used up or it has ended, and the world. The loop ends when
  \<^verbatim>\<open>self.running\<close> is false at its head, which nothing in the program makes it once the
  loop runs, or when an exception leaves a pass and so the loop and \<^verbatim>\<open>start\<close>.
\<close>

datatype loop_end = Still_running | Returned | Propagated exn

fun worker_loop ::
  "nat \<Rightarrow> env \<Rightarrow> pipeline \<Rightarrow> bool \<Rightarrow> world \<Rightarrow> worker_call list \<times> loop_end \<times> world" where
  "worker_loop n env process False w = ([], Returned, w)"
| "worker_loop 0 env process True w = ([], Still_running, w)"
| "worker_loop (Suc n) env process True w =
     (case cycle env process w of
        (calls, Some e, w1) \<Rightarrow> (calls, Propagated e, w1)
      | (calls, None, w1) \<Rightarrow>
          (let (rest, ending, w2) = worker_loop n env process True w1
           in (calls @ rest, ending, w2)))"

definition start ::
  "nat \<Rightarrow> env \<Rightarrow> pipeline \<Rightarrow> bool \<Rightarrow> world \<Rightarrow> worker_call list \<times> loop_end \<times> world" where
  "start n env process running w =
     (if running then ([], Returned, w) else worker_loop n env process True w)"

text \<open>
  A trace of worker calls in which a pass starts only when no owner is marked, the
  pipeline is called only for the owner marked at that moment, and the owner marked is
  the one cleared; at the end no owner is left marked. The first argument is the owner
  marked so far.
\<close>

fun well_bracketed :: "int option \<Rightarrow> worker_call list \<Rightarrow> bool" where
  "well_bracketed m [] = (m = None)"
| "well_bracketed m (Get_next_task # cs) = (m = None \<and> well_bracketed None cs)"
| "well_bracketed m (Set_processing u True # cs) = (m = None \<and> well_bracketed (Some u) cs)"
| "well_bracketed m (Set_processing u False # cs) = (m = Some u \<and> well_bracketed None cs)"
| "well_bracketed m (Process_content u # cs) = (m = Some u \<and> well_bracketed m cs)"
| "well_bracketed m (Print e # cs) = well_bracketed m cs"
| "well_bracketed m (Sleep d # cs) = well_bracketed m cs"

section \<open>A concrete environment and the initial world\<close>

text \<open>
  An environment in which no outbound call fails, every user is authorized, a document
  has one page, and the extraction finds no question; and the world at start-up.
\<close>

definition quiet_env :: env where
  "quiet_env =
     \<lparr>raises = (\<lambda>a. None),
      pdf_to_images = (\<lambda>p r. Inr [0]),
      load_image = (\<lambda>p. Inr 0),
      process_images_parallel = (\<lambda>images md h. Inr ([], h)),
      post_quiz = (\<lambda>chat_id thread_id q settings. None),
      strftime_now = ''20240101_000000'',
      clock = 0,
      output_dir = ''out'',
      temp_dir = ''tmp'',
      max_queue_size = 10,
      is_authorized = (\<lambda>uid. True),
      get_user_settings = (\<lambda>uid. Inr (''Q'', ''T'')),
      get_user_channels = (\<lambda>uid. []),
      get_user_groups = (\<lambda>uid. [])\<rparr>"

definition empty_world :: world where
  "empty_world =
     \<lparr>user_states = Map.empty, task_queue = new_task_queue, file_system = Map.empty,
      store = (\<lambda>a. []), outbox = []\<rparr>"

text \<open>An environment in which every outbound call fails, and a world with one queued task.\<close>

definition offline_env :: env where
  "offline_env = quiet_env\<lparr>raises := (\<lambda>a. Some (Failure ''network''))\<rparr>"

definition queued_world :: world where
  "queued_world =
     empty_world\<lparr>task_queue :=
       \<lparr>queue = [\<lparr>user_id = 7,
                   data = \<lparr>content_type = ''pdf'', content_paths = [''tmp/7_a.pdf''],
                           page_range = None, mode = ''extraction''\<rparr>,
                   timestamp = 0\<rparr>],
        processing = Map.empty\<rparr>\<rparr>"

text \<open>
  The world after user 7 has uploaded \<^verbatim>\<open>a.pdf\<close> and chosen the extraction mode: the upload
  session exists and the task is queued. Then one pass of the worker in three
  environments: the extraction finds nothing, the extraction raises, and the extraction
  returns one question whose options are at address 0.
\<close>

definition uploaded_world :: world where
  "uploaded_world =
     snd (handle_callback quiet_env 7 ''mode_extraction''
       (snd (handle_document quiet_env 7 ''a.pdf'' empty_world)))"

definition broken_extraction_env :: env where
  "broken_extraction_env =
     quiet_env\<lparr>process_images_parallel := (\<lambda>images md h. Inl (Failure ''extraction''))\<rparr>"

definition one_question_env :: env where
  "one_question_env =
     quiet_env\<lparr>process_images_parallel :=
       (\<lambda>images md h. Inr ([spaced_question], h(0 := [''x'', ''y''])))\<rparr>"

definition after_no_questions :: world where
  "after_no_questions = next_world quiet_env (process_content quiet_env) uploaded_world"

definition after_broken_extraction :: world where
  "after_broken_extraction =
     next_world broken_extraction_env (process_content broken_extraction_env) uploaded_world"

definition after_one_question :: world where
  "after_one_question =
     next_world one_question_env (process_content one_question_env) uploaded_world"

text \<open>An environment in which every quiz creation fails; a question with six options.\<close>

definition failing_posts_env :: env where
  "failing_posts_env =
     quiet_env\<lparr>post_quiz := (\<lambda>chat_id thread_id q settings. Some (Failure ''post''))\<rparr>"

definition six_heap :: heap where
  "six_heap = (\<lambda>a. [])(0 := [''a'', ''b'', ''c'', ''d'', ''e'', ''f''])"

definition six_question :: "addr question" where
  "six_question =
     \<lparr>question_description = ''q'', options = 0, correct_answer_index = 0,
      correct_option = ''A'', explanation = ''''\<rparr>"

text \<open>An environment in which the first status message of the pipeline is cancelled.\<close>

definition cancelled_env :: env where
  "cancelled_env = quiet_env\<lparr>raises := (\<lambda>a. Some CancelledError)\<rparr>"

section \<open>Properties of the task queue\<close>

lemma queued_iff: "queued q uid \<longleftrightarrow> uid \<in> user_id ` set q"
  by (induction q) auto

lemma queue_inv_new: "queue_inv new_task_queue"
  by (simp add: queue_inv_def new_task_queue_def)

lemma queue_inv_add_task: "queue_inv tq \<Longrightarrow> queue_inv (snd (add_task cap now tq uid d))"
  by (auto simp: queue_inv_def add_task_def Let_def queued_iff is_processing_def list_all_iff)

lemma queue_inv_clear_user: "queue_inv tq \<Longrightarrow> queue_inv (clear_user tq uid)"
  by (auto simp: queue_inv_def clear_user_def is_processing_def list_all_iff distinct_map_filter)

lemma queue_inv_worker_take: "queue_inv tq \<Longrightarrow> queue_inv (snd (worker_take now tq))"
  by (cases "queue tq")
    (auto simp: queue_inv_def worker_take_def get_next_task_def set_processing_def
      is_processing_def list_all_iff image_iff)

lemma queue_inv_worker_done: "queue_inv tq \<Longrightarrow> queue_inv (set_processing now tq uid False)"
  by (auto simp: queue_inv_def set_processing_def is_processing_def list_all_iff)

lemma queue_inv_apply_op: "queue_inv tq \<Longrightarrow> queue_inv (apply_op cap tq op)"
  by (cases op)
    (simp_all add: queue_inv_add_task queue_inv_clear_user queue_inv_worker_take
      queue_inv_worker_done)

lemma queue_inv_foldl: "queue_inv tq \<Longrightarrow> queue_inv (foldl (apply_op cap) tq ops)"
  by (induction ops arbitrary: tq) (simp_all add: queue_inv_apply_op)

lemma queue_inv_run_ops: "queue_inv (run_ops cap ops)"
  by (simp add: run_ops_def queue_inv_foldl queue_inv_new)

lemma distinct_filter_le_1:
  "distinct (map f xs) \<Longrightarrow> length (filter (\<lambda>t. f t = u) xs) \<le> 1"
proof (induction xs)
  case Nil
  show ?case by simp
next
  case (Cons a xs)
  show ?case
  proof (cases "f a = u")
    case True
    with Cons.prems have "filter (\<lambda>t. f t = u) xs = []"
      by (auto simp: filter_empty_conv image_iff)
    with True show ?thesis by simp
  next
    case False
    with Cons show ?thesis by simp
  qed
qed

lemma live_count_le_1: "queue_inv tq \<Longrightarrow> live_count tq uid \<le> 1"
proof -
  assume inv: "queue_inv tq"
  then have d: "length (filter (\<lambda>t. user_id t = uid) (queue tq)) \<le> 1"
    using distinct_filter_le_1 [of user_id "queue tq" uid] by (simp add: queue_inv_def)
  show ?thesis
  proof (cases "is_processing tq uid")
    case False
    with d show ?thesis by (simp add: live_count_def)
  next
    case True
    with inv have "filter (\<lambda>t. user_id t = uid) (queue tq) = []"
      by (auto simp: queue_inv_def list_all_iff filter_empty_conv)
    with True show ?thesis by (simp add: live_count_def)
  qed
qed

lemma add_task_rejects_live:
  "queued (queue tq) uid \<or> is_processing tq uid \<Longrightarrow> add_task cap now tq uid d = (- 2, tq)"
  by (auto simp: add_task_def)

lemma add_task_accepts:
  assumes "\<not> queued (queue tq) uid" and "\<not> is_processing tq uid"
    and "int (length (queue tq)) < cap"
  shows "add_task cap now tq uid d =
    (int (length (queue tq)) + 1,
     tq\<lparr>queue := queue tq @ [\<lparr>user_id = uid, data = d, timestamp = now\<rparr>]\<rparr>)"
  using assms by (simp add: add_task_def Let_def)

lemma add_task_full:
  assumes "\<not> queued (queue tq) uid" and "\<not> is_processing tq uid"
    and "cap \<le> int (length (queue tq))"
  shows "add_task cap now tq uid d = (- 1, tq)"
  using assms by (simp add: add_task_def)

lemma length_add_task:
  "int (length (queue tq)) \<le> cap \<Longrightarrow> int (length (queue (snd (add_task cap now tq uid d)))) \<le> cap"
  by (simp add: add_task_def Let_def)

lemma length_apply_op:
  "int (length (queue tq)) \<le> cap \<Longrightarrow> int (length (queue (apply_op cap tq op))) \<le> cap"
proof (cases op)
  case (Add_task uid d now)
  assume "int (length (queue tq)) \<le> cap"
  with Add_task show ?thesis by (simp add: length_add_task)
next
  case (Clear_user uid)
  assume le: "int (length (queue tq)) \<le> cap"
  have "length (filter (\<lambda>t. user_id t \<noteq> uid) (queue tq)) \<le> length (queue tq)"
    by (rule length_filter_le)
  with le have "int (length (filter (\<lambda>t. user_id t \<noteq> uid) (queue tq))) \<le> cap"
    by linarith
  with Clear_user show ?thesis by (simp add: clear_user_def)
next
  case (Worker_take now)
  assume "int (length (queue tq)) \<le> cap"
  with Worker_take show ?thesis
    by (cases "queue tq") (simp_all add: worker_take_def get_next_task_def set_processing_def)
next
  case (Worker_done uid)
  assume "int (length (queue tq)) \<le> cap"
  with Worker_done show ?thesis by (simp add: set_processing_def)
qed

lemma length_foldl_ops:
  "int (length (queue tq)) \<le> cap \<Longrightarrow> int (length (queue (foldl (apply_op cap) tq ops))) \<le> cap"
  by (induction ops arbitrary: tq) (simp_all add: length_apply_op)

lemma length_run_ops: "0 \<le> cap \<Longrightarrow> int (length (queue (run_ops cap ops))) \<le> cap"
  by (simp add: run_ops_def length_foldl_ops new_task_queue_def)

lemma position_from_not_queued: "\<not> queued q uid \<Longrightarrow> position_from idx q uid = 0"
  by (induction q arbitrary: idx) (auto split: if_splits)

lemma position_from_queued:
  "queued q uid \<Longrightarrow>
     int idx + 1 \<le> position_from idx q uid \<and>
     position_from idx q uid \<le> int idx + int (length q) \<and>
     user_id (q ! nat (position_from idx q uid - int idx - 1)) = uid \<and>
     (\<forall>j < nat (position_from idx q uid - int idx - 1). user_id (q ! j) \<noteq> uid)"
proof (induction q arbitrary: idx)
  case Nil
  then show ?case by simp
next
  case (Cons t ts)
  show ?case
  proof (cases "user_id t = uid")
    case True
    then show ?thesis by simp
  next
    case False
    with Cons.prems have q: "queued ts uid" by simp
    note ih = Cons.IH [OF q, of "Suc idx"]
    let ?p = "position_from (Suc idx) ts uid"
    from ih have ge: "int idx + 2 \<le> ?p" by simp
    then have n: "nat (?p - int idx - 1) = Suc (nat (?p - int (Suc idx) - 1))" by simp
    have "\<forall>j < Suc (nat (?p - int (Suc idx) - 1)). user_id ((t # ts) ! j) \<noteq> uid"
    proof (intro allI impI)
      fix j assume "j < Suc (nat (?p - int (Suc idx) - 1))"
      with ih False show "user_id ((t # ts) ! j) \<noteq> uid" by (cases j) auto
    qed
    with False ih n show ?thesis by simp
  qed
qed

lemma position_from_distinct:
  "distinct (map user_id q) \<Longrightarrow> i < length q \<Longrightarrow>
     position_from idx q (user_id (q ! i)) = int idx + int i + 1"
proof (induction q arbitrary: idx i)
  case Nil
  then show ?case by simp
next
  case (Cons t ts)
  show ?case
  proof (cases i)
    case 0
    then show ?thesis by simp
  next
    case (Suc k)
    with Cons.prems have k: "k < length ts" and d: "distinct (map user_id ts)" by simp_all
    from k have "ts ! k \<in> set ts" by simp
    with Cons.prems have "user_id (ts ! k) \<noteq> user_id t" by (auto simp: image_iff)
    with Suc Cons.IH [OF d k, of "Suc idx"] show ?thesis by simp
  qed
qed

lemma get_next_task_Some:
  "get_next_task tq = (Some t, tq') \<Longrightarrow> queue tq = t # queue tq' \<and> processing tq' = processing tq"
  by (cases "queue tq") (auto simp: get_next_task_def)

lemma worker_take_Some:
  "worker_take now tq = (Some t, tq') \<Longrightarrow>
     queue tq = t # queue tq' \<and> is_processing tq' (user_id t)"
  by (cases "queue tq")
    (auto simp: worker_take_def get_next_task_def set_processing_def is_processing_def)

lemma position_from_append_new:
  "\<not> queued q uid \<Longrightarrow>
     position_from idx (q @ [\<lparr>user_id = uid, data = d, timestamp = now\<rparr>]) uid =
       int idx + int (length q) + 1"
  by (induction q arbitrary: idx) (auto split: if_splits)

text \<open>
  C1. In every reachable queue state an owner has at most one live task (queued entries
  plus the processing mark), and \<^verbatim>\<open>add_task\<close> for an owner that already has a queued task
  or whose processing flag is set returns \<open>-2\<close> (AlreadyQueued) and leaves the queue and
  the processing dictionary as they were.
\<close>

theorem add_task_already_queued:
  fixes tq :: "'d task_queue" and ops :: "'d queue_op list"
  shows "live_count (run_ops cap ops) uid \<le> 1 \<and>
    (queued (queue tq) uid \<or> is_processing tq uid \<longrightarrow>
       add_task cap now tq uid d = (- 2, tq))"
proof (intro conjI impI)
  show "live_count (run_ops cap ops) uid \<le> 1"
    by (rule live_count_le_1) (rule queue_inv_run_ops)
next
  assume "queued (queue tq) uid \<or> is_processing tq uid"
  then show "add_task cap now tq uid d = (- 2, tq)"
    by (rule add_task_rejects_live)
qed

theorem add_task_already_queued_witness:
  "live_count (run_ops 2 [Add_task 7 () 0, Worker_take 1, Add_task 7 () 2]) 7 \<le> 1 \<and>
   is_processing (run_ops 2 [Add_task 7 () 0, Worker_take 1]) 7 \<and>
   add_task 2 2 (run_ops 2 [Add_task 7 () 0, Worker_take 1]) 7 () =
     (- 2, run_ops 2 [Add_task 7 () 0, Worker_take 1]) \<and>
   queued (queue (run_ops 2 [Add_task 7 () 0])) 7 \<and>
   add_task 2 2 (run_ops 2 [Add_task 7 () 0]) 7 () = (- 2, run_ops 2 [Add_task 7 () 0])"
proof -
  let ?p = "run_ops 2 [Add_task 7 () 0, Worker_take 1] :: unit task_queue"
  let ?q = "run_ops 2 [Add_task 7 () 0] :: unit task_queue"
  have p: "is_processing ?p 7"
    by (simp add: run_ops_def new_task_queue_def add_task_def worker_take_def
        get_next_task_def set_processing_def is_processing_def Let_def)
  have q: "queued (queue ?q) 7"
    by (simp add: run_ops_def new_task_queue_def add_task_def is_processing_def Let_def)
  from p q
    add_task_already_queued [where cap = 2 and uid = 7 and tq = ?p and now = 2 and d = "()"
      and ops = "[Add_task 7 () 0, Worker_take 1, Add_task 7 () 2]"]
    add_task_already_queued [where cap = 2 and uid = 7 and tq = ?q and now = 2 and d = "()"
      and ops = "[]"]
  show ?thesis by blast
qed

text \<open>
  C2. For an owner with no live task, \<^verbatim>\<open>add_task\<close> appends the task at the tail and
  returns its 1-based position while the queue holds fewer than \<^verbatim>\<open>MAX_QUEUE_SIZE\<close>
  entries, and returns \<open>-1\<close> (QueueFull) with the queue unchanged once it holds that many;
  so a reachable queue never holds more than the capacity, and with capacity 2 three
  distinct owners get 1, 2 and \<open>-1\<close>.
\<close>

theorem add_task_capacity:
  fixes tq :: "'d task_queue" and ops :: "'d queue_op list"
  shows
   "(\<not> queued (queue tq) uid \<and> \<not> is_processing tq uid \<and> int (length (queue tq)) < cap \<longrightarrow>
       add_task cap now tq uid d =
         (int (length (queue tq)) + 1,
          tq\<lparr>queue := queue tq @ [\<lparr>user_id = uid, data = d, timestamp = now\<rparr>]\<rparr>)) \<and>
    (\<not> queued (queue tq) uid \<and> \<not> is_processing tq uid \<and> cap \<le> int (length (queue tq)) \<longrightarrow>
       add_task cap now tq uid d = (- 1, tq)) \<and>
    (0 \<le> cap \<longrightarrow> int (length (queue (run_ops cap ops))) \<le> cap) \<and>
    (a \<noteq> b \<and> a \<noteq> c \<and> b \<noteq> c \<longrightarrow>
       (let (ra, tqa) = add_task 2 ta (new_task_queue :: 'd task_queue) a da;
            (rb, tqb) = add_task 2 tb tqa b db;
            (rc, tqc) = add_task 2 tc tqb c dc
        in ra = 1 \<and> rb = 2 \<and> rc = - 1 \<and> tqc = tqb \<and>
           map user_id (queue tqc) = [a, b]))"
proof (intro conjI impI)
  assume "\<not> queued (queue tq) uid \<and> \<not> is_processing tq uid \<and> int (length (queue tq)) < cap"
  then show "add_task cap now tq uid d =
      (int (length (queue tq)) + 1,
       tq\<lparr>queue := queue tq @ [\<lparr>user_id = uid, data = d, timestamp = now\<rparr>]\<rparr>)"
    by (simp add: add_task_accepts)
next
  assume "\<not> queued (queue tq) uid \<and> \<not> is_processing tq uid \<and> cap \<le> int (length (queue tq))"
  then show "add_task cap now tq uid d = (- 1, tq)"
    by (simp add: add_task_full)
next
  assume "0 \<le> cap"
  then show "int (length (queue (run_ops cap ops))) \<le> cap"
    by (rule length_run_ops)
next
  assume "a \<noteq> b \<and> a \<noteq> c \<and> b \<noteq> c"
  then show "let (ra, tqa) = add_task 2 ta (new_task_queue :: 'd task_queue) a da;
            (rb, tqb) = add_task 2 tb tqa b db;
            (rc, tqc) = add_task 2 tc tqb c dc
        in ra = 1 \<and> rb = 2 \<and> rc = - 1 \<and> tqc = tqb \<and>
           map user_id (queue tqc) = [a, b]"
    by (simp add: add_task_def new_task_queue_def is_processing_def Let_def)
qed

theorem add_task_capacity_witness:
  "add_task 2 5 (run_ops 2 [Add_task 1 () 0]) 2 () =
     (2, (run_ops 2 [Add_task 1 () 0])
           \<lparr>queue := queue (run_ops 2 [Add_task 1 () 0]) @
              [\<lparr>user_id = 2, data = (), timestamp = 5\<rparr>]\<rparr>) \<and>
   add_task 2 6 (run_ops 2 [Add_task 1 () 0, Add_task 2 () 5]) 3 () =
     (- 1, run_ops 2 [Add_task 1 () 0, Add_task 2 () 5]) \<and>
   int (length (queue (run_ops 2
      [Add_task 1 () 0, Add_task 2 () 5, Add_task 3 () 6, Add_task 4 () 7]))) \<le> 2 \<and>
   fst (add_task 2 0 new_task_queue 1 ()) = 1 \<and>
   fst (add_task 2 5 (snd (add_task 2 0 new_task_queue 1 ())) 2 ()) = 2 \<and>
   fst (add_task 2 6
     (snd (add_task 2 5 (snd (add_task 2 0 new_task_queue 1 ())) 2 ())) 3 ()) = - 1"
proof -
  let ?q1 = "run_ops 2 [Add_task 1 () 0] :: unit task_queue"
  let ?q2 = "run_ops 2 [Add_task 1 () 0, Add_task 2 () 5] :: unit task_queue"
  have h1: "\<not> queued (queue ?q1) 2 \<and> \<not> is_processing ?q1 2 \<and> int (length (queue ?q1)) < 2"
    by (simp add: run_ops_def new_task_queue_def add_task_def is_processing_def Let_def)
  have h2: "\<not> queued (queue ?q2) 3 \<and> \<not> is_processing ?q2 3 \<and> 2 \<le> int (length (queue ?q2))"
    by (simp add: run_ops_def new_task_queue_def add_task_def is_processing_def Let_def)
  have h3: "(1::int) \<noteq> 2 \<and> (1::int) \<noteq> 3 \<and> (2::int) \<noteq> 3" by simp
  note t1 = add_task_capacity [where tq = ?q1 and uid = 2 and cap = 2 and now = 5 and d = "()"
      and ops = "[]" and a = 1 and b = 2 and c = 3 and ta = 0 and tb = 5 and tc = 6
      and da = "()" and db = "()" and dc = "()"]
  note t2 = add_task_capacity [where tq = ?q2 and uid = 3 and cap = 2 and now = 6 and d = "()"
      and ops = "[Add_task 1 () 0, Add_task 2 () 5, Add_task 3 () 6, Add_task 4 () 7]"
      and a = 1 and b = 2 and c = 3 and ta = 0 and tb = 5 and tc = 6
      and da = "()" and db = "()" and dc = "()"]
  from t1 h1 have c1: "add_task 2 5 ?q1 2 () =
     (2, ?q1\<lparr>queue := queue ?q1 @ [\<lparr>user_id = 2, data = (), timestamp = 5\<rparr>]\<rparr>)"
    by (simp add: run_ops_def new_task_queue_def add_task_def is_processing_def Let_def)
  from t2 h2 have c2: "add_task 2 6 ?q2 3 () = (- 1, ?q2)" by blast
  from t2 have c3: "int (length (queue (run_ops 2
      [Add_task 1 () 0, Add_task 2 () 5, Add_task 3 () 6, Add_task 4 () 7 :: unit queue_op]))) \<le> 2"
    by simp
  from t2 h3 have c4: "let (ra, tqa) = add_task 2 0 (new_task_queue :: unit task_queue) 1 ();
            (rb, tqb) = add_task 2 5 tqa 2 ();
            (rc, tqc) = add_task 2 6 tqb 3 ()
        in ra = 1 \<and> rb = 2 \<and> rc = - 1 \<and> tqc = tqb \<and>
           map user_id (queue tqc) = [1, 2]"
    by blast
  then have c5: "fst (add_task 2 0 (new_task_queue :: unit task_queue) 1 ()) = 1 \<and>
   fst (add_task 2 5 (snd (add_task 2 0 (new_task_queue :: unit task_queue) 1 ())) 2 ()) = 2 \<and>
   fst (add_task 2 6
     (snd (add_task 2 5 (snd (add_task 2 0 (new_task_queue :: unit task_queue) 1 ())) 2 ())) 3 ()) = - 1"
    by (simp add: Let_def split_beta)
  from c1 c2 c3 c5 show ?thesis by simp
qed

lemma position_from_Suc:
  "queued q uid \<Longrightarrow> position_from (Suc idx) q uid = position_from idx q uid + 1"
  by (induction q arbitrary: idx) (auto split: if_splits)

lemma position_from_append_old:
  "queued q uid \<Longrightarrow> position_from idx (q @ [x]) uid = position_from idx q uid"
  by (induction q arbitrary: idx) (auto split: if_splits)

lemma get_position_not_queued: "\<not> queued (queue tq) uid \<Longrightarrow> get_position tq uid = 0"
  by (simp add: get_position_def position_from_not_queued)

lemma get_position_queued:
  assumes "queued (queue tq) uid"
  shows "1 \<le> get_position tq uid \<and> get_position tq uid \<le> int (length (queue tq)) \<and>
    user_id (queue tq ! nat (get_position tq uid - 1)) = uid \<and>
    (\<forall>j < nat (get_position tq uid - 1). user_id (queue tq ! j) \<noteq> uid)"
  using position_from_queued [OF assms, of 0] by (simp add: get_position_def)

lemma get_position_nth:
  "queue_inv tq \<Longrightarrow> i < length (queue tq) \<Longrightarrow>
     get_position tq (user_id (queue tq ! i)) = int i + 1"
  using position_from_distinct [of "queue tq" i 0] by (simp add: get_position_def queue_inv_def)

lemma get_position_after_dequeue:
  assumes inv: "queue_inv tq" and nxt: "get_next_task tq = (Some t, tq')"
  shows "get_position tq' (user_id t) = 0"
    and "queued (queue tq') u \<Longrightarrow> get_position tq' u = get_position tq u - 1"
proof -
  from nxt have q: "queue tq = t # queue tq'" by (simp add: get_next_task_Some)
  with inv have nq: "\<not> queued (queue tq') (user_id t)"
    by (simp add: queue_inv_def queued_iff)
  then show "get_position tq' (user_id t) = 0" by (rule get_position_not_queued)
  assume u: "queued (queue tq') u"
  with nq have "user_id t \<noteq> u" by auto
  with q u show "get_position tq' u = get_position tq u - 1"
    by (simp add: get_position_def position_from_Suc)
qed

lemma get_position_after_take:
  assumes inv: "queue_inv tq" and tk: "worker_take now tq = (Some t, tq')"
  shows "is_processing tq' (user_id t) \<and> get_position tq' (user_id t) = 0"
proof -
  from tk have q: "queue tq = t # queue tq'" and p: "is_processing tq' (user_id t)"
    by (simp_all add: worker_take_Some)
  from q inv have "\<not> queued (queue tq') (user_id t)"
    by (simp add: queue_inv_def queued_iff)
  with p show ?thesis by (simp add: get_position_not_queued)
qed

lemma get_position_after_add:
  assumes add: "add_task cap now tq u d = (r, tq')" and pos: "0 < r"
  shows "get_position tq' u = r"
    and "queued (queue tq) v \<Longrightarrow> get_position tq' v = get_position tq v \<and> get_position tq v < r"
proof -
  from add pos have nq: "\<not> queued (queue tq) u" and np: "\<not> is_processing tq u"
    and lt: "int (length (queue tq)) < cap"
    by (auto simp: add_task_def split: if_splits)
  from add add_task_accepts [OF nq np lt, of now d]
  have r: "r = int (length (queue tq)) + 1"
    and q': "queue tq' = queue tq @ [\<lparr>user_id = u, data = d, timestamp = now\<rparr>]"
    by auto
  from nq r q' show "get_position tq' u = r"
    by (simp add: get_position_def position_from_append_new)
  assume v: "queued (queue tq) v"
  from get_position_queued [OF v] r have "get_position tq v < r" by simp
  with v q' show "get_position tq' v = get_position tq v \<and> get_position tq v < r"
    by (simp add: get_position_def position_from_append_old)
qed

text \<open>
  C9. \<^verbatim>\<open>get_position\<close> returns 0 for an owner with no queued task and otherwise the
  1-based index of the owner's (first) queued task. \<^verbatim>\<open>get_next_task\<close> removes the head.
  In every reachable queue the task at index \<open>i\<close> has position \<open>i + 1\<close>, so positions
  increase strictly along the queue, which is the order of admission: an accepted
  \<^verbatim>\<open>add_task\<close> returns the new task's position, larger than the position of every task
  queued before and leaving those unchanged. After a dequeue the owner of the task taken
  has position 0 (also while it is marked processing) and every other queued task has
  moved up by one.
\<close>

theorem get_position_fifo:
  fixes tq :: "'d task_queue" and ops :: "'d queue_op list"
  shows
   "(\<not> queued (queue tq) uid \<longrightarrow> get_position tq uid = 0) \<and>
    (queued (queue tq) uid \<longrightarrow>
       1 \<le> get_position tq uid \<and> get_position tq uid \<le> int (length (queue tq)) \<and>
       user_id (queue tq ! nat (get_position tq uid - 1)) = uid \<and>
       (\<forall>j < nat (get_position tq uid - 1). user_id (queue tq ! j) \<noteq> uid)) \<and>
    (\<forall>t tq'. get_next_task tq = (Some t, tq') \<longrightarrow> queue tq = t # queue tq') \<and>
    (let rq = run_ops cap ops in
       (\<forall>i < length (queue rq). get_position rq (user_id (queue rq ! i)) = int i + 1) \<and>
       (\<forall>i j. i < j \<and> j < length (queue rq) \<longrightarrow>
          get_position rq (user_id (queue rq ! i)) < get_position rq (user_id (queue rq ! j))) \<and>
       (\<forall>t rq'. get_next_task rq = (Some t, rq') \<longrightarrow>
          get_position rq' (user_id t) = 0 \<and>
          (\<forall>u. queued (queue rq') u \<longrightarrow> get_position rq' u = get_position rq u - 1)) \<and>
       (\<forall>t rq'. worker_take now rq = (Some t, rq') \<longrightarrow>
          is_processing rq' (user_id t) \<and> get_position rq' (user_id t) = 0) \<and>
       (\<forall>u d r rq'. add_task cap now rq u d = (r, rq') \<and> 0 < r \<longrightarrow>
          get_position rq' u = r \<and>
          (\<forall>v. queued (queue rq) v \<longrightarrow>
             get_position rq' v = get_position rq v \<and> get_position rq v < r)))"
proof -
  define rq where "rq = run_ops cap ops"
  have inv: "queue_inv rq" unfolding rq_def by (rule queue_inv_run_ops)
  have a: "\<not> queued (queue tq) uid \<longrightarrow> get_position tq uid = 0"
    by (simp add: get_position_not_queued)
  have b: "queued (queue tq) uid \<longrightarrow>
       1 \<le> get_position tq uid \<and> get_position tq uid \<le> int (length (queue tq)) \<and>
       user_id (queue tq ! nat (get_position tq uid - 1)) = uid \<and>
       (\<forall>j < nat (get_position tq uid - 1). user_id (queue tq ! j) \<noteq> uid)"
    using get_position_queued [of tq uid] by blast
  have c: "\<forall>t tq'. get_next_task tq = (Some t, tq') \<longrightarrow> queue tq = t # queue tq'"
    by (simp add: get_next_task_Some)
  have d1: "\<forall>i < length (queue rq). get_position rq (user_id (queue rq ! i)) = int i + 1"
    using inv by (simp add: get_position_nth)
  have d2: "\<forall>i j. i < j \<and> j < length (queue rq) \<longrightarrow>
          get_position rq (user_id (queue rq ! i)) < get_position rq (user_id (queue rq ! j))"
    using inv by (simp add: get_position_nth)
  have d3: "\<forall>t rq'. get_next_task rq = (Some t, rq') \<longrightarrow>
          get_position rq' (user_id t) = 0 \<and>
          (\<forall>u. queued (queue rq') u \<longrightarrow> get_position rq' u = get_position rq u - 1)"
    using get_position_after_dequeue [OF inv] by blast
  have d4: "\<forall>t rq'. worker_take now rq = (Some t, rq') \<longrightarrow>
          is_processing rq' (user_id t) \<and> get_position rq' (user_id t) = 0"
    using get_position_after_take [OF inv] by blast
  have d5: "\<forall>u d r rq'. add_task cap now rq u d = (r, rq') \<and> 0 < r \<longrightarrow>
          get_position rq' u = r \<and>
          (\<forall>v. queued (queue rq) v \<longrightarrow>
             get_position rq' v = get_position rq v \<and> get_position rq v < r)"
  proof (intro allI impI)
    fix u d r rq'
    assume "add_task cap now rq u d = (r, rq') \<and> 0 < r"
    then have e: "add_task cap now rq u d = (r, rq')" and p: "0 < r" by simp_all
    from get_position_after_add(1) [OF e p] get_position_after_add(2) [OF e p]
    show "get_position rq' u = r \<and>
          (\<forall>v. queued (queue rq) v \<longrightarrow>
             get_position rq' v = get_position rq v \<and> get_position rq v < r)"
      by simp
  qed
  from a b c d1 d2 d3 d4 d5 show ?thesis
    unfolding Let_def rq_def by (intro conjI)
qed

theorem get_position_fifo_witness:
  "get_position (run_ops 3 [Add_task 1 () 10, Add_task 2 () 20, Add_task 3 () 30]) 9 = 0 \<and>
   get_position (run_ops 3 [Add_task 1 () 10, Add_task 2 () 20, Add_task 3 () 30]) 1 = 1 \<and>
   get_position (run_ops 3 [Add_task 1 () 10, Add_task 2 () 20, Add_task 3 () 30]) 2 = 2 \<and>
   get_position (run_ops 3 [Add_task 1 () 10, Add_task 2 () 20, Add_task 3 () 30]) 3 = 3 \<and>
   get_position
     (snd (worker_take 5 (run_ops 3 [Add_task 1 () 10, Add_task 2 () 20, Add_task 3 () 30]))) 1 = 0 \<and>
   is_processing
     (snd (worker_take 5 (run_ops 3 [Add_task 1 () 10, Add_task 2 () 20, Add_task 3 () 30]))) 1 \<and>
   get_position
     (snd (get_next_task (run_ops 3 [Add_task 1 () 10, Add_task 2 () 20, Add_task 3 () 30]))) 3 = 2"
proof -
  let ?ops = "[Add_task 1 () 10, Add_task 2 () 20, Add_task 3 () 30] :: unit queue_op list"
  let ?t1 = "\<lparr>user_id = 1, data = (), timestamp = 10\<rparr>"
  let ?t2 = "\<lparr>user_id = 2, data = (), timestamp = 20\<rparr>"
  let ?t3 = "\<lparr>user_id = 3, data = (), timestamp = 30\<rparr>"
  have rq: "run_ops 3 ?ops = \<lparr>queue = [?t1, ?t2, ?t3], processing = Map.empty\<rparr>"
    by (simp add: run_ops_def new_task_queue_def add_task_def is_processing_def Let_def)
  have nxt: "get_next_task (run_ops 3 ?ops) =
      (Some ?t1, \<lparr>queue = [?t2, ?t3], processing = Map.empty\<rparr>)"
    by (simp add: rq get_next_task_def)
  have tk: "worker_take 5 (run_ops 3 ?ops) =
      (Some ?t1, \<lparr>queue = [?t2, ?t3], processing = [1 \<mapsto> 5]\<rparr>)"
    by (simp add: worker_take_def nxt set_processing_def)
  note t = get_position_fifo [where tq = "run_ops 3 ?ops" and uid = 9 and cap = 3
      and ops = ?ops and now = 5, unfolded Let_def]
  have "\<not> queued (queue (run_ops 3 ?ops)) 9" by (simp add: rq)
  with t have p9: "get_position (run_ops 3 ?ops) 9 = 0" by blast
  from t have nth: "\<forall>i < length (queue (run_ops 3 ?ops)).
      get_position (run_ops 3 ?ops) (user_id (queue (run_ops 3 ?ops) ! i)) = int i + 1"
    by blast
  from nth [rule_format, of 0] have p1: "get_position (run_ops 3 ?ops) 1 = 1"
    by (simp add: rq)
  from nth [rule_format, of 1] have p2: "get_position (run_ops 3 ?ops) 2 = 2"
    by (simp add: rq)
  from nth [rule_format, of 2] have p3: "get_position (run_ops 3 ?ops) 3 = 3"
    by (simp add: rq)
  from t have "\<forall>t rq'. worker_take 5 (run_ops 3 ?ops) = (Some t, rq') \<longrightarrow>
      is_processing rq' (user_id t) \<and> get_position rq' (user_id t) = 0"
    by blast
  from this [rule_format, OF tk]
  have w: "is_processing (snd (worker_take 5 (run_ops 3 ?ops))) 1 \<and>
      get_position (snd (worker_take 5 (run_ops 3 ?ops))) 1 = 0"
    by (simp add: tk)
  from t have "\<forall>t rq'. get_next_task (run_ops 3 ?ops) = (Some t, rq') \<longrightarrow>
      get_position rq' (user_id t) = 0 \<and>
      (\<forall>u. queued (queue rq') u \<longrightarrow> get_position rq' u = get_position (run_ops 3 ?ops) u - 1)"
    by blast
  from this [rule_format, OF nxt]
  have "queued [?t2, ?t3] 3 \<longrightarrow>
      get_position (snd (get_next_task (run_ops 3 ?ops))) 3 = get_position (run_ops 3 ?ops) 3 - 1"
    by (simp add: nxt)
  with p3 have d: "get_position (snd (get_next_task (run_ops 3 ?ops))) 3 = 2" by simp
  from p9 p1 p2 p3 w d show ?thesis by simp
qed

section \<open>Properties of the artifact\<close>

lemma pad_options_eq: "pad_options opts = opts @ replicate (5 - length opts) []"
proof (induction opts rule: pad_options.induct)
  case (1 opts)
  show ?case
  proof (cases "length opts < 5")
    case True
    then have "5 - length opts = Suc (5 - length (opts @ [[]]))" by simp
    with True "1.IH" show ?thesis
      by (subst pad_options.simps) (simp add: replicate_app_Cons_same)
  next
    case False
    then show ?thesis by (subst pad_options.simps) simp
  qed
qed

lemma length_pad_options: "length (pad_options opts) = max 5 (length opts)"
  by (simp add: pad_options_eq max_def)

lemma pad_options_idem: "pad_options (pad_options opts) = pad_options opts"
  by (simp add: pad_options_eq)

lemma filter_pad_options:
  "filter (\<lambda>s. s \<noteq> []) (pad_options opts) = filter (\<lambda>s. s \<noteq> []) opts"
  by (simp add: pad_options_eq)

lemma write_rows_eq:
  "write_rows h qs =
     (\<lambda>a. if a \<in> options ` set qs then pad_options (h a) else h a,
      map (\<lambda>q. question_row (pad_options (h (options q))) q) qs)"
proof (induction qs arbitrary: h)
  case Nil
  show ?case by simp
next
  case (Cons q qs)
  let ?h1 = "h(options q := pad_options (h (options q)))"
  have pad: "\<And>a. pad_options (?h1 a) = pad_options (h a)"
    by (simp add: pad_options_idem)
  have heap: "(\<lambda>a. if a \<in> options ` set qs then pad_options (?h1 a) else ?h1 a) =
      (\<lambda>a. if a \<in> options ` set (q # qs) then pad_options (h a) else h a)"
    by (rule ext) (simp add: pad_options_idem)
  have rows: "map (\<lambda>q'. question_row (pad_options (?h1 (options q'))) q') qs =
      map (\<lambda>q'. question_row (pad_options (h (options q'))) q') qs"
    by (simp only: pad)
  show ?case
    by (simp only: write_rows.simps Let_def Cons.IH [of ?h1] heap rows split_conv list.map)
qed

lemma py_int_str_int_small: "1 \<le> k \<Longrightarrow> k \<le> 5 \<Longrightarrow> py_int (str_int k) = Some k"
proof -
  assume "1 \<le> k" and "k \<le> 5"
  then have "k = 1 \<or> k = 2 \<or> k = 3 \<or> k = 4 \<or> k = 5" by arith
  then show ?thesis by (elim disjE; hypsubst; code_simp)
qed

lemma map_filter_truthy_PyStr:
  "List.map_filter (\<lambda>s. truthy (PyStr s)) xs = filter (\<lambda>s. s \<noteq> []) xs"
  by (induction xs) (simp_all add: map_filter_simps)

lemma dict_row_written:
  "dict_row fieldnames [t, a, b, c, d, e, ans, ex, ty, se] =
     [''questions'' \<mapsto> PyStr t, ''option1'' \<mapsto> PyStr a, ''option2'' \<mapsto> PyStr b,
      ''option3'' \<mapsto> PyStr c, ''option4'' \<mapsto> PyStr d, ''option5'' \<mapsto> PyStr e,
      ''answer'' \<mapsto> PyStr ans, ''explanation'' \<mapsto> PyStr ex, ''type'' \<mapsto> PyStr ty,
      ''section'' \<mapsto> PyStr se]"
  by (simp add: dict_row_def fieldnames_def)

lemma written_option_cells:
  "List.map_filter
     (\<lambda>key. truthy (row_get (dict_row fieldnames [t, a, b, c, d, e, ans, ex, ty, se]) key PyNone))
     option_keys =
   filter (\<lambda>s. s \<noteq> []) [a, b, c, d, e]"
proof -
  have "List.map_filter
     (\<lambda>key. truthy (row_get (dict_row fieldnames [t, a, b, c, d, e, ans, ex, ty, se]) key PyNone))
     option_keys = List.map_filter (\<lambda>s. truthy (PyStr s)) [a, b, c, d, e]"
    by (simp add: dict_row_written option_keys_def row_get_def map_filter_simps)
  then show ?thesis by (simp only: map_filter_truthy_PyStr)
qed

lemma length5E:
  assumes "length xs = 5"
  obtains a b c d e where "xs = [a, b, c, d, e]"
proof -
  from assms obtain a xs1 where 1: "xs = a # xs1" and "length xs1 = 4"
    by (cases xs) auto
  then obtain b xs2 where 2: "xs1 = b # xs2" and "length xs2 = 3"
    by (cases xs1) auto
  then obtain c xs3 where 3: "xs2 = c # xs3" and "length xs3 = 2"
    by (cases xs2) auto
  then obtain d xs4 where 4: "xs3 = d # xs4" and "length xs4 = 1"
    by (cases xs3) auto
  then obtain e where 5: "xs4 = [e]"
    by (cases xs4) auto
  from 1 2 3 4 5 that show thesis by simp
qed

lemma parse_row_written:
  fixes q :: "addr question"
  assumes desc: "question_description q \<noteq> []"
    and len: "length opts \<le> 5"
    and two: "2 \<le> length (filter (\<lambda>s. s \<noteq> []) opts)"
    and lo: "0 \<le> correct_answer_index q"
    and hi: "correct_answer_index q < int (length (filter (\<lambda>s. s \<noteq> []) opts))"
  shows "parse_row (dict_row fieldnames (question_row (pad_options opts) q)) =
    Inr (Some \<lparr>question_description = strip (question_description q),
               options = filter (\<lambda>s. s \<noteq> []) opts,
               correct_answer_index = correct_answer_index q,
               correct_option = [char_of (65 + correct_answer_index q)],
               explanation = strip (explanation q)\<rparr>)"
proof -
  from len have "length (pad_options opts) = 5" by (simp add: length_pad_options)
  then obtain a b c d e where pad: "pad_options opts = [a, b, c, d, e]" by (rule length5E)
  let ?ans = "str_int (correct_answer_index q + 1)"
  let ?cells = "[question_description q, a, b, c, d, e, ?ans, explanation q, ''1'', ''1'']"
  let ?row = "dict_row fieldnames ?cells"
  from lo have cells: "question_row (pad_options opts) q = ?cells"
    by (simp add: question_row_def pad)
  have opts: "List.map_filter (\<lambda>key. truthy (row_get ?row key PyNone)) option_keys =
      filter (\<lambda>s. s \<noteq> []) opts"
    using filter_pad_options [of opts] by (simp only: written_option_cells pad)
  have "length (filter (\<lambda>s. s \<noteq> []) opts) \<le> length opts" by (rule length_filter_le)
  with len hi have "correct_answer_index q + 1 \<le> 5" by linarith
  with lo have ans: "py_int ?ans = Some (correct_answer_index q + 1)"
    by (simp add: py_int_str_int_small)
  have q: "row_get ?row ''questions'' PyNone = PyStr (question_description q)"
    and a: "row_get ?row ''answer'' (PyStr ''1'') = PyStr ?ans"
    and e: "row_get ?row ''explanation'' (PyStr []) = PyStr (explanation q)"
    by (simp_all add: dict_row_written row_get_def)
  from desc two lo hi show ?thesis
    unfolding cells parse_row_def by (simp add: q a e opts ans Let_def)
qed

lemma parse_row_well_formed:
  assumes "well_formed h q"
  shows "parse_row (dict_row fieldnames (question_row (pad_options (h (options q))) q)) =
    Inr (Some (reparsed h q))"
proof -
  from assms have all: "filter (\<lambda>s. s \<noteq> []) (h (options q)) = h (options q)"
    by (simp add: well_formed_def list_all_iff)
  from assms all show ?thesis
    using parse_row_written [of q "h (options q)"]
    by (simp add: well_formed_def reparsed_def)
qed

lemma question_row_not_empty: "question_row opts q \<noteq> []"
  by (simp add: question_row_def Let_def)

lemma str_int_small_length: "1 \<le> k \<Longrightarrow> k \<le> 5 \<Longrightarrow> length (str_int k) = 1"
proof -
  assume "1 \<le> k" and "k \<le> 5"
  then have "k = 1 \<or> k = 2 \<or> k = 3 \<or> k = 4 \<or> k = 5" by arith
  then show ?thesis by (elim disjE; hypsubst; code_simp)
qed

lemma read_cells_short: "list_all (\<lambda>cell. length cell \<le> field_limit) cells \<Longrightarrow> read_cells cells = Inr cells"
  by (auto simp: read_cells_def list_all_iff list_ex_iff)

lemma read_cells_written:
  assumes wf: "well_formed h q"
  shows "read_cells (question_row (pad_options (h (options q))) q) =
    Inr (question_row (pad_options (h (options q))) q)"
proof -
  let ?opts = "h (options q)"
  from wf have "length (pad_options ?opts) = 5"
    by (simp add: well_formed_def length_pad_options)
  then obtain a b c d e where pad: "pad_options ?opts = [a, b, c, d, e]" by (rule length5E)
  from wf have "list_all (\<lambda>s. length s \<le> field_limit) (pad_options ?opts)"
    by (auto simp: well_formed_def pad_options_eq list_all_iff)
  with pad have opts: "length a \<le> field_limit" "length b \<le> field_limit"
    "length c \<le> field_limit" "length d \<le> field_limit" "length e \<le> field_limit"
    by simp_all
  from wf have "1 \<le> correct_answer_index q + 1" and "correct_answer_index q + 1 \<le> 5"
    by (simp_all add: well_formed_def)
  then have ans: "length (str_int (correct_answer_index q + 1)) = 1"
    by (rule str_int_small_length)
  have one: "1 \<le> field_limit" by (simp add: field_limit_def)
  from wf opts ans one show ?thesis
    by (intro read_cells_short) (simp add: question_row_def pad well_formed_def)
qed

lemma parse_rows_well_formed:
  "list_all (well_formed h) qs \<Longrightarrow>
     parse_rows fieldnames (map (\<lambda>q. question_row (pad_options (h (options q))) q) qs) =
       Inr (map (reparsed h) qs)"
  by (induction qs)
    (simp_all add: read_cells_written question_row_not_empty parse_row_well_formed)

lemma questions_to_csv_files:
  "snd (questions_to_csv h fs qs path) path =
     Some (Artifact (fieldnames #
       map (\<lambda>q. question_row (pad_options (h (options q))) q) qs))"
  by (simp add: questions_to_csv_def write_rows_eq)

lemma read_cells_fieldnames: "read_cells fieldnames = Inr fieldnames"
  by (simp add: read_cells_def fieldnames_def field_limit_def)

lemma round_trip_well_formed:
  assumes "list_all (well_formed h) qs"
  shows "parse_artifact (snd (questions_to_csv h fs qs path)) path = Inr (map (reparsed h) qs)"
  using parse_rows_well_formed [OF assms]
  by (simp add: parse_artifact_def questions_to_csv_files parse_csv_file_def
      read_cells_fieldnames)

lemma parse_row_clamped:
  assumes "parse_row row = Inr (Some p)"
  shows "2 \<le> length (options p) \<and> 0 \<le> correct_answer_index p \<and>
    correct_answer_index p < int (length (options p))"
  using assms
  by (auto simp: parse_row_def Let_def split: option.splits if_splits pyval.splits)

lemma parse_rows_clamped:
  "parse_rows names rows = Inr ps \<Longrightarrow>
     list_all (\<lambda>p. 2 \<le> length (options p) \<and> 0 \<le> correct_answer_index p \<and>
       correct_answer_index p < int (length (options p))) ps"
proof (induction rows arbitrary: ps)
  case Nil
  then show ?case by simp
next
  case (Cons cells rows)
  from Cons.prems obtain cs where rd: "read_cells cells = Inr cs"
    by (cases "read_cells cells") auto
  show ?case
  proof (cases "cs = []")
    case True
    with rd Cons show ?thesis by simp
  next
    case False
    show ?thesis
    proof (cases "parse_row (dict_row names cs)")
      case (Inl e)
      with rd False Cons.prems show ?thesis by simp
    next
      case (Inr r)
      show ?thesis
      proof (cases r)
        case None
        with Inr rd False Cons show ?thesis by simp
      next
        case (Some p)
        with Inr rd False Cons.prems
        obtain ps' where ps': "parse_rows names rows = Inr ps'" and ps: "ps = p # ps'"
          by (auto split: sum.splits)
        from Some Inr have "parse_row (dict_row names cs) = Inr (Some p)" by simp
        with Cons.IH [OF ps'] ps show ?thesis by (simp add: parse_row_clamped)
      qed
    qed
  qed
qed

lemma parse_rows_oversize:
  "list_ex (list_ex (\<lambda>cell. field_limit < length cell)) rows \<Longrightarrow>
     \<exists>e. parse_rows names rows = Inl e"
proof (induction rows)
  case Nil
  then show ?case by simp
next
  case (Cons cells rows)
  show ?case
  proof (cases "list_ex (\<lambda>cell. field_limit < length cell) cells")
    case True
    then show ?thesis by (simp add: read_cells_def)
  next
    case False
    with Cons.prems have "list_ex (list_ex (\<lambda>cell. field_limit < length cell)) rows" by simp
    from Cons.IH [OF this] obtain e where "parse_rows names rows = Inl e" ..
    with False show ?thesis
      by (simp add: read_cells_def split: sum.splits option.splits)
  qed
qed

lemma parse_csv_file_oversize:
  assumes "list_ex (list_ex (\<lambda>cell. field_limit < length cell)) table"
  shows "\<exists>e. parse_csv_file table = Inl (CSV_parse_error e)"
proof (cases table)
  case Nil
  with assms show ?thesis by simp
next
  case (Cons header rows)
  show ?thesis
  proof (cases "list_ex (\<lambda>cell. field_limit < length cell) header")
    case True
    with Cons show ?thesis by (simp add: parse_csv_file_def read_cells_def)
  next
    case False
    with assms Cons have "list_ex (list_ex (\<lambda>cell. field_limit < length cell)) rows" by simp
    from parse_rows_oversize [OF this, of header]
    obtain e where "parse_rows header rows = Inl e" ..
    with False Cons show ?thesis by (simp add: parse_csv_file_def read_cells_def)
  qed
qed

lemma parse_row_few_options:
  "length (List.map_filter (\<lambda>key. truthy (row_get row key PyNone)) option_keys) < 2 \<Longrightarrow>
     parse_row row = Inr None"
  by (simp add: parse_row_def Let_def split: option.splits)

lemma well_formed_spaced: "well_formed example_heap spaced_question"
  by (simp add: well_formed_def example_heap_def spaced_question_def field_limit_def)

lemma well_formed_plain: "well_formed example_heap plain_question"
  by (simp add: well_formed_def example_heap_def plain_question_def field_limit_def)

lemma long_question_artifact:
  "parse_artifact (snd (questions_to_csv example_heap Map.empty [long_question] ''out.csv''))
       ''out.csv'' = Inl (CSV_parse_error Csv_error)"
  by (simp add: parse_artifact_def questions_to_csv_files parse_csv_file_def
      read_cells_fieldnames read_cells_def question_row_def long_question_def)

text \<open>
  C4, as amended. For a list of questions with non-empty text, 2 to 5 non-empty options
  and a correct index within the options, in which no text, option or explanation is
  longer than the field size limit of the csv reader (131072 characters), writing the
  artifact with \<^verbatim>\<open>questions_to_csv\<close> and parsing it again gives, question by question, the
  same options and the same correct index (the 1-based answer cell converts back), and
  the text and the explanation with leading and trailing whitespace removed: the same
  text exactly when it has no such whitespace. Every question the parser returns has at
  least 2 options and a correct index within them, and a row with fewer than 2 non-empty
  option cells yields no question. A table with a cell longer than the limit is not
  parsed: \<^verbatim>\<open>parse_csv_file\<close> raises its parse error.
\<close>

theorem csv_round_trip:
  "(list_all (well_formed h) qs \<longrightarrow>
      parse_artifact (snd (questions_to_csv h fs qs path)) path = Inr (map (reparsed h) qs)) \<and>
   (parse_csv_file table = Inr ps \<longrightarrow>
      list_all (\<lambda>p. 2 \<le> length (options p) \<and> 0 \<le> correct_answer_index p \<and>
        correct_answer_index p < int (length (options p))) ps) \<and>
   (length (List.map_filter (\<lambda>key. truthy (row_get row key PyNone)) option_keys) < 2 \<longrightarrow>
      parse_row row = Inr None) \<and>
   (list_ex (list_ex (\<lambda>cell. field_limit < length cell)) table \<longrightarrow>
      (\<exists>e. parse_csv_file table = Inl (CSV_parse_error e)))"
proof (intro conjI impI)
  assume "list_all (well_formed h) qs"
  then show "parse_artifact (snd (questions_to_csv h fs qs path)) path = Inr (map (reparsed h) qs)"
    by (rule round_trip_well_formed)
next
  assume "parse_csv_file table = Inr ps"
  then obtain header rows where "parse_rows header rows = Inr ps \<or> ps = []"
    by (cases table) (auto simp: parse_csv_file_def split: sum.splits)
  then show "list_all (\<lambda>p. 2 \<le> length (options p) \<and> 0 \<le> correct_answer_index p \<and>
        correct_answer_index p < int (length (options p))) ps"
    by (auto dest: parse_rows_clamped)
next
  assume "length (List.map_filter (\<lambda>key. truthy (row_get row key PyNone)) option_keys) < 2"
  then show "parse_row row = Inr None"
    by (rule parse_row_few_options)
next
  assume "list_ex (list_ex (\<lambda>cell. field_limit < length cell)) table"
  then show "\<exists>e. parse_csv_file table = Inl (CSV_parse_error e)"
    by (rule parse_csv_file_oversize)
qed

theorem csv_round_trip_witness:
  "list_all (well_formed example_heap) [plain_question] \<and>
   parse_artifact (snd (questions_to_csv example_heap Map.empty [plain_question] ''out.csv''))
       ''out.csv'' =
     Inr [\<lparr>question_description = ''b'', options = [''p'', ''q'', ''r''],
           correct_answer_index = 2, correct_option = ''C'', explanation = ''because''\<rparr>] \<and>
   parse_csv_file [[''questions'', ''option1'', ''option2'', ''answer''],
                   [''q'', ''a'', ''b'', ''7'']] =
     Inr [\<lparr>question_description = ''q'', options = [''a'', ''b''],
           correct_answer_index = 1, correct_option = ''B'', explanation = ''''\<rparr>] \<and>
   parse_row [''questions'' \<mapsto> PyStr ''q'', ''option1'' \<mapsto> PyStr ''a''] = Inr None \<and>
   list_ex (list_ex (\<lambda>cell. field_limit < length cell))
     [[''questions''], [replicate (Suc field_limit) CHR ''a'']] \<and>
   parse_csv_file [[''questions''], [replicate (Suc field_limit) CHR ''a'']] =
     Inl (CSV_parse_error Csv_error) \<and>
   parse_artifact (snd (questions_to_csv example_heap Map.empty [long_question] ''out.csv''))
       ''out.csv'' = Inl (CSV_parse_error Csv_error)"
proof -
  let ?table = "[[''questions'', ''option1'', ''option2'', ''answer''],
                 [''q'', ''a'', ''b'', ''7'']]"
  let ?ps = "[\<lparr>question_description = ''q'', options = [''a'', ''b''],
           correct_answer_index = 1, correct_option = ''B'', explanation = ''''\<rparr>]"
  let ?row = "[''questions'' \<mapsto> PyStr ''q'', ''option1'' \<mapsto> PyStr ''a'']"
  let ?long = "[[''questions''], [replicate (Suc field_limit) CHR ''a'']]"
  note t = csv_round_trip [where h = example_heap and qs = "[plain_question]"
      and fs = Map.empty and path = "''out.csv''" and table = ?table and ps = ?ps
      and row = ?row]
  note t2 = csv_round_trip [where h = example_heap and qs = "[plain_question]"
      and fs = Map.empty and path = "''out.csv''" and table = ?long and ps = "[]"
      and row = ?row]
  have wf: "list_all (well_formed example_heap) [plain_question]"
    by (simp add: well_formed_plain)
  have re: "reparsed example_heap plain_question =
      \<lparr>question_description = ''b'', options = [''p'', ''q'', ''r''],
       correct_answer_index = 2, correct_option = ''C'', explanation = ''because''\<rparr>"
    by (simp add: reparsed_def example_heap_def plain_question_def strip_def is_space_def
        char_of_def)
  have few: "length (List.map_filter (\<lambda>key. truthy (row_get ?row key PyNone)) option_keys) < 2"
    by (simp add: option_keys_def row_get_def map_filter_simps)
  have tab: "parse_csv_file ?table = Inr ?ps"
    by (simp add: parse_csv_file_def read_cells_def field_limit_def parse_row_def dict_row_def
        row_get_def option_keys_def map_filter_simps py_int_def py_nat_def is_int_space_def
        is_digit_def digit_val_def strip_def is_space_def char_of_def Let_def)
  have big: "list_ex (list_ex (\<lambda>cell. field_limit < length cell)) ?long"
    by simp
  with t2 have "\<exists>e. parse_csv_file ?long = Inl (CSV_parse_error e)" by blast
  moreover have "read_cells [''questions''] = Inr [''questions'']"
    by (simp add: read_cells_def field_limit_def)
  ultimately have err: "parse_csv_file ?long = Inl (CSV_parse_error Csv_error)"
    by (simp add: parse_csv_file_def read_cells_def)
  from t wf re few tab big err long_question_artifact show ?thesis by simp
qed

text \<open>
  The round trip does not keep a text that starts with a space: the question \<open>'' a''\<close>
  with options \<open>x\<close>, \<open>y\<close> and correct index 0 is well formed, and comes back as \<open>''a''\<close>.
\<close>

theorem csv_round_trip_counterexample:
  "well_formed example_heap spaced_question \<and>
   question_description spaced_question = '' a'' \<and>
   parse_artifact (snd (questions_to_csv example_heap Map.empty [spaced_question] ''out.csv''))
       ''out.csv'' =
     Inr [\<lparr>question_description = ''a'', options = [''x'', ''y''],
           correct_answer_index = 0, correct_option = ''A'', explanation = ''''\<rparr>]"
proof -
  have re: "reparsed example_heap spaced_question =
      \<lparr>question_description = ''a'', options = [''x'', ''y''],
       correct_answer_index = 0, correct_option = ''A'', explanation = ''''\<rparr>"
    by (simp add: reparsed_def example_heap_def spaced_question_def strip_def is_space_def
        char_of_def)
  have "list_all (well_formed example_heap) [spaced_question]"
    by (simp add: well_formed_spaced)
  from round_trip_well_formed [OF this, of Map.empty "''out.csv''"] re well_formed_spaced
  show ?thesis by (simp add: spaced_question_def)
qed

section \<open>Properties of the worker loop\<close>

lemma worker_take_Cons:
  "queue q = t # rest \<Longrightarrow>
     worker_take now q = (Some t, set_processing now (q\<lparr>queue := rest\<rparr>) (user_id t) True)"
  by (simp add: worker_take_def get_next_task_def)

lemma is_processing_set_True: "is_processing (set_processing now q u True) u"
  by (simp add: set_processing_def is_processing_def)

lemma is_processing_set_False: "\<not> is_processing (set_processing now q u False) u"
  by (simp add: set_processing_def is_processing_def)

lemma cycle_task:
  assumes q: "queue (task_queue w) = t # rest"
    and p: "process (user_id t) (content_type (data t)) (content_paths (data t))
              (page_range (data t)) (mode (data t))
              (w\<lparr>task_queue :=
                  set_processing (clock env) ((task_queue w)\<lparr>queue := rest\<rparr>) (user_id t) True\<rparr>) =
            (r, w2)"
  shows "cycle env process w =
    ([Get_next_task, Set_processing (user_id t) True, Process_content (user_id t)] @
     (case r of
        Inl e \<Rightarrow>
          if is_exception e then [Print e, Set_processing (user_id t) False, Sleep 500]
          else [Set_processing (user_id t) False]
      | Inr u \<Rightarrow> [Set_processing (user_id t) False, Sleep 500]),
     (case r of Inl e \<Rightarrow> if is_exception e then None else Some e | Inr u \<Rightarrow> None),
     w2\<lparr>task_queue := set_processing (clock env) (task_queue w2) (user_id t) False\<rparr>)"
  using p by (cases r) (simp_all add: cycle_def worker_take_Cons [OF q] Let_def)

lemma cycle_idle:
  "queue (task_queue w) = [] \<Longrightarrow> cycle env process w = ([Get_next_task, Sleep 1000], None, w)"
  by (simp add: cycle_def worker_take_def get_next_task_def)

lemma cycle_cleared:
  assumes q: "queue (task_queue w) = t # rest"
  shows "\<not> is_processing (task_queue (next_world env process w)) (user_id t)"
proof -
  obtain r w2 where p: "process (user_id t) (content_type (data t)) (content_paths (data t))
              (page_range (data t)) (mode (data t))
              (w\<lparr>task_queue :=
                  set_processing (clock env) ((task_queue w)\<lparr>queue := rest\<rparr>) (user_id t) True\<rparr>) =
            (r, w2)"
    by (rule prod.exhaust)
  note eq = cycle_task [where process = process and env = env and w = w and t = t
      and rest = rest and r = r and ?w2.0 = w2, OF q p]
  show ?thesis by (simp add: next_world_def eq is_processing_set_False)
qed

lemma cycle_calls:
  "count_list (fst (cycle env process w)) Get_next_task = 1 \<and>
   (\<forall>cs. well_bracketed None cs \<longrightarrow> well_bracketed None (fst (cycle env process w) @ cs))"
proof (cases "queue (task_queue w)")
  case Nil
  then show ?thesis by (simp add: cycle_idle)
next
  case (Cons t rest)
  obtain r w2 where p: "process (user_id t) (content_type (data t)) (content_paths (data t))
              (page_range (data t)) (mode (data t))
              (w\<lparr>task_queue :=
                  set_processing (clock env) ((task_queue w)\<lparr>queue := rest\<rparr>) (user_id t) True\<rparr>) =
            (r, w2)"
    by (rule prod.exhaust)
  note eq = cycle_task [where process = process and env = env and w = w and t = t
      and rest = rest and r = r and ?w2.0 = w2, OF Cons p]
  show ?thesis by (cases r) (simp_all add: eq)
qed

text \<open>A pipeline that raises nothing outside class \<^verbatim>\<open>Exception\<close> lets every pass go on.\<close>

lemma cycle_continues:
  assumes h: "\<forall>u c p r m w0 e. fst (process u c p r m w0) = Inl e \<longrightarrow> is_exception e"
  shows "fst (snd (cycle env process w)) = None"
proof (cases "queue (task_queue w)")
  case Nil
  then show ?thesis by (simp add: cycle_idle)
next
  case (Cons t rest)
  obtain r w2 where p: "process (user_id t) (content_type (data t)) (content_paths (data t))
              (page_range (data t)) (mode (data t))
              (w\<lparr>task_queue :=
                  set_processing (clock env) ((task_queue w)\<lparr>queue := rest\<rparr>) (user_id t) True\<rparr>) =
            (r, w2)"
    by (rule prod.exhaust)
  note eq = cycle_task [where process = process and env = env and w = w and t = t
      and rest = rest and r = r and ?w2.0 = w2, OF Cons p]
  show ?thesis
  proof (cases r)
    case (Inl e)
    with p h have "is_exception e" by (metis fst_conv)
    with Inl show ?thesis by (simp add: eq)
  next
    case (Inr u)
    then show ?thesis by (simp add: eq)
  qed
qed

lemma worker_loop_step:
  assumes "fst (snd (cycle env process w)) = None"
  shows "worker_loop (Suc n) env process True w =
    (fst (cycle env process w) @ fst (worker_loop n env process True (next_world env process w)),
     fst (snd (worker_loop n env process True (next_world env process w))),
     snd (snd (worker_loop n env process True (next_world env process w))))"
proof -
  obtain calls x w1 where c: "cycle env process w = (calls, x, w1)" by (rule prod_cases3)
  with assms have "x = None" by simp
  with c show ?thesis by (simp add: next_world_def split_beta)
qed

lemma worker_loop_iterates:
  assumes h: "\<forall>u c p r m w0 e. fst (process u c p r m w0) = Inl e \<longrightarrow> is_exception e"
  shows "worker_loop n env process True w =
    (concat (map (\<lambda>i. fst (cycle env process ((next_world env process ^^ i) w))) [0..<n]),
     Still_running,
     (next_world env process ^^ n) w)"
proof (induction n arbitrary: w)
  case 0
  show ?case by simp
next
  case (Suc n)
  let ?f = "\<lambda>v i. fst (cycle env process ((next_world env process ^^ i) v))"
  have "map (?f w) [0..<Suc n] = ?f w 0 # map (?f w \<circ> Suc) [0..<n]"
    by (simp only: upt_conv_Cons [OF zero_less_Suc] list.map map_Suc_upt [symmetric] map_map)
  moreover have "?f w \<circ> Suc = ?f (next_world env process w)"
    by (rule ext) (simp add: funpow_swap1)
  ultimately have m: "concat (map (?f w) [0..<Suc n]) =
      fst (cycle env process w) @ concat (map (?f (next_world env process w)) [0..<n])"
    by simp
  have w: "(next_world env process ^^ Suc n) w =
      (next_world env process ^^ n) (next_world env process w)"
    by (simp add: funpow_swap1)
  show ?case
    by (simp only: worker_loop_step [OF cycle_continues [OF h]] Suc.IH m w fst_conv snd_conv)
qed

lemma worker_loop_trace:
  assumes h: "\<forall>u c p r m w0 e. fst (process u c p r m w0) = Inl e \<longrightarrow> is_exception e"
  shows "count_list (fst (worker_loop n env process True w)) Get_next_task = n \<and>
    well_bracketed None (fst (worker_loop n env process True w))"
proof (induction n arbitrary: w)
  case 0
  show ?case by simp
next
  case (Suc n)
  note st = worker_loop_step [where process = process and env = env and w = w and n = n,
      OF cycle_continues [OF h]]
  from cycle_calls [of env process w] Suc.IH [of "next_world env process w"]
  show ?case unfolding st by simp
qed

text \<open>
  Outside that condition: an exception that is not of class \<^verbatim>\<open>Exception\<close>, raised by
  the pipeline in the first pass, ends the loop after the mark has been cleared.
\<close>

lemma worker_loop_cancelled:
  assumes q: "queue (task_queue w) = t # rest"
    and p: "process (user_id t) (content_type (data t)) (content_paths (data t))
              (page_range (data t)) (mode (data t))
              (w\<lparr>task_queue :=
                  set_processing (clock env) ((task_queue w)\<lparr>queue := rest\<rparr>) (user_id t) True\<rparr>) =
            (Inl e, w2)"
    and e: "\<not> is_exception e"
  shows "start (Suc n) env process False w =
    ([Get_next_task, Set_processing (user_id t) True, Process_content (user_id t),
      Set_processing (user_id t) False],
     Propagated e,
     w2\<lparr>task_queue := set_processing (clock env) (task_queue w2) (user_id t) False\<rparr>)"
  using e
  by (simp add: start_def cycle_task [where process = process and env = env and w = w
        and t = t and rest = rest and r = "Inl e" and ?w2.0 = w2, OF q p])

lemma offline_pipeline:
  "process_content offline_env u c p r m w0 = (Inl (Failure ''network''), w0)"
  by (simp add: process_content_def process_content_body_def try_except_def then_do_def
      call_def offline_env_def quiet_env_def)

text \<open>
  C3. In a pass of the worker loop that finds a task, for any behaviour of the pipeline:
  the pipeline is called on a world in which the owner of the task is marked processing;
  whether it returns or raises, the pass ends by clearing the mark, so the owner is not
  marked processing in the world the next pass starts from; the calls are made in the
  order get, mark, pipeline, (print), clear, (sleep). A fault of the pipeline, that is an
  exception of class \<^verbatim>\<open>Exception\<close>, does not stop the loop: when the pipeline raises no
  other kind of exception, \<^verbatim>\<open>start\<close> on a stopped processor, followed for any number \<open>n\<close>
  of passes, has made exactly the calls of \<open>n\<close> successive passes, each from the world
  the one before left, and is still running; before each next pass the owner of the task
  just processed is no longer marked. An exception outside class \<^verbatim>\<open>Exception\<close>
  (a cancellation) is not such a fault: it ends the loop, after the mark is cleared.
\<close>

theorem worker_cycle_clears_processing:
  "(queue (task_queue w) = t # rest \<longrightarrow>
      (case process (user_id t) (content_type (data t)) (content_paths (data t))
              (page_range (data t)) (mode (data t))
              (w\<lparr>task_queue :=
                 set_processing (clock env) ((task_queue w)\<lparr>queue := rest\<rparr>) (user_id t) True\<rparr>) of
         (r, w2) \<Rightarrow>
           is_processing
             (set_processing (clock env) ((task_queue w)\<lparr>queue := rest\<rparr>) (user_id t) True)
             (user_id t) \<and>
           cycle env process w =
             ([Get_next_task, Set_processing (user_id t) True, Process_content (user_id t)] @
              (case r of
                 Inl e \<Rightarrow>
                   if is_exception e then [Print e, Set_processing (user_id t) False, Sleep 500]
                   else [Set_processing (user_id t) False]
               | Inr u \<Rightarrow> [Set_processing (user_id t) False, Sleep 500]),
              (case r of Inl e \<Rightarrow> if is_exception e then None else Some e | Inr u \<Rightarrow> None),
              w2\<lparr>task_queue := set_processing (clock env) (task_queue w2) (user_id t) False\<rparr>) \<and>
           \<not> is_processing (task_queue (next_world env process w)) (user_id t))) \<and>
   ((\<forall>u c p r m w0 e. fst (process u c p r m w0) = Inl e \<longrightarrow> is_exception e) \<longrightarrow>
      start n env process False w =
        (concat (map (\<lambda>i. fst (cycle env process ((next_world env process ^^ i) w))) [0..<n]),
         Still_running,
         (next_world env process ^^ n) w) \<and>
      (\<forall>i t1 rest1. i < n \<and> queue (task_queue ((next_world env process ^^ i) w)) = t1 # rest1 \<longrightarrow>
         \<not> is_processing (task_queue ((next_world env process ^^ Suc i) w)) (user_id t1)) \<and>
      count_list (fst (start n env process False w)) Get_next_task = n \<and>
      well_bracketed None (fst (start n env process False w)))"
proof (intro conjI impI allI)
  assume q: "queue (task_queue w) = t # rest"
  obtain r w2 where p: "process (user_id t) (content_type (data t)) (content_paths (data t))
              (page_range (data t)) (mode (data t))
              (w\<lparr>task_queue :=
                  set_processing (clock env) ((task_queue w)\<lparr>queue := rest\<rparr>) (user_id t) True\<rparr>) =
            (r, w2)"
    by (rule prod.exhaust)
  note eq = cycle_task [where process = process and env = env and w = w and t = t
      and rest = rest and r = r and ?w2.0 = w2, OF q p]
  note cl = cycle_cleared [where process = process and env = env, OF q]
  show "case process (user_id t) (content_type (data t)) (content_paths (data t))
              (page_range (data t)) (mode (data t))
              (w\<lparr>task_queue :=
                 set_processing (clock env) ((task_queue w)\<lparr>queue := rest\<rparr>) (user_id t) True\<rparr>) of
         (r, w2) \<Rightarrow>
           is_processing
             (set_processing (clock env) ((task_queue w)\<lparr>queue := rest\<rparr>) (user_id t) True)
             (user_id t) \<and>
           cycle env process w =
             ([Get_next_task, Set_processing (user_id t) True, Process_content (user_id t)] @
              (case r of
                 Inl e \<Rightarrow>
                   if is_exception e then [Print e, Set_processing (user_id t) False, Sleep 500]
                   else [Set_processing (user_id t) False]
               | Inr u \<Rightarrow> [Set_processing (user_id t) False, Sleep 500]),
              (case r of Inl e \<Rightarrow> if is_exception e then None else Some e | Inr u \<Rightarrow> None),
              w2\<lparr>task_queue := set_processing (clock env) (task_queue w2) (user_id t) False\<rparr>) \<and>
           \<not> is_processing (task_queue (next_world env process w)) (user_id t)"
    using cl by (simp only: p split_conv) (simp add: eq is_processing_set_True)
next
  assume h: "\<forall>u c p r m w0 e. fst (process u c p r m w0) = Inl e \<longrightarrow> is_exception e"
  show "start n env process False w =
        (concat (map (\<lambda>i. fst (cycle env process ((next_world env process ^^ i) w))) [0..<n]),
         Still_running,
         (next_world env process ^^ n) w)"
    by (simp add: start_def worker_loop_iterates [OF h])
  show "count_list (fst (start n env process False w)) Get_next_task = n"
    using worker_loop_trace [OF h, of n env w] by (simp add: start_def)
  show "well_bracketed None (fst (start n env process False w))"
    using worker_loop_trace [OF h, of n env w] by (simp add: start_def)
next
  fix i t1 rest1
  assume "i < n \<and> queue (task_queue ((next_world env process ^^ i) w)) = t1 # rest1"
  then have "queue (task_queue ((next_world env process ^^ i) w)) = t1 # rest1" by simp
  from cycle_cleared [where process = process and env = env, OF this]
  show "\<not> is_processing (task_queue ((next_world env process ^^ Suc i) w)) (user_id t1)"
    by simp
qed

theorem worker_cycle_clears_processing_witness:
  "(\<forall>u c p r m w0.
      process_content offline_env u c p r m w0 = (Inl (Failure ''network''), w0)) \<and>
   is_exception (Failure ''network'') \<and>
   cycle offline_env (process_content offline_env) queued_world =
     ([Get_next_task, Set_processing 7 True, Process_content 7, Print (Failure ''network''),
       Set_processing 7 False, Sleep 500],
      None,
      queued_world\<lparr>task_queue := \<lparr>queue = [], processing = Map.empty\<rparr>\<rparr>) \<and>
   \<not> is_processing
       (task_queue (next_world offline_env (process_content offline_env) queued_world)) 7 \<and>
   start 3 offline_env (process_content offline_env) False queued_world =
     ([Get_next_task, Set_processing 7 True, Process_content 7, Print (Failure ''network''),
       Set_processing 7 False, Sleep 500,
       Get_next_task, Sleep 1000,
       Get_next_task, Sleep 1000],
      Still_running,
      queued_world\<lparr>task_queue := \<lparr>queue = [], processing = Map.empty\<rparr>\<rparr>)"
proof -
  let ?t = "\<lparr>user_id = 7,
             data = \<lparr>content_type = ''pdf'', content_paths = [''tmp/7_a.pdf''],
                     page_range = None, mode = ''extraction''\<rparr>,
             timestamp = 0\<rparr>"
  let ?w1 = "queued_world\<lparr>task_queue := \<lparr>queue = [], processing = [7 \<mapsto> 0]\<rparr>\<rparr>"
  let ?w2 = "queued_world\<lparr>task_queue := \<lparr>queue = [], processing = Map.empty\<rparr>\<rparr>"
  let ?next = "next_world offline_env (process_content offline_env)"
  have q: "queue (task_queue queued_world) = ?t # []"
    by (simp add: queued_world_def empty_world_def)
  have w1: "queued_world\<lparr>task_queue :=
      set_processing (clock offline_env) ((task_queue queued_world)\<lparr>queue := []\<rparr>)
        7 True\<rparr> = ?w1"
    by (simp add: queued_world_def empty_world_def set_processing_def offline_env_def
        quiet_env_def)
  have fin: "set_processing (clock offline_env) \<lparr>queue = [], processing = [7 \<mapsto> 0]\<rparr> 7 False =
      (\<lparr>queue = [], processing = Map.empty\<rparr> :: task_data task_queue)"
    by (simp add: set_processing_def)
  have h: "\<forall>u c p r m w0 e.
      fst (process_content offline_env u c p r m w0) = Inl e \<longrightarrow> is_exception e"
    by (auto simp: offline_pipeline)
  note t = worker_cycle_clears_processing [where w = queued_world and t = ?t and rest = "[]"
      and process = "process_content offline_env" and env = offline_env and n = 3]
  from t q have c1: "cycle offline_env (process_content offline_env) queued_world =
     ([Get_next_task, Set_processing 7 True, Process_content 7, Print (Failure ''network''),
       Set_processing 7 False, Sleep 500],
      None, ?w2)"
    by (simp add: w1 offline_pipeline fin)
  then have n1: "?next queued_world = ?w2"
    by (simp add: next_world_def)
  then have c2: "\<not> is_processing (task_queue (?next queued_world)) 7"
    by (simp add: is_processing_def)
  have idle: "cycle offline_env (process_content offline_env) ?w2 =
      ([Get_next_task, Sleep 1000], None, ?w2)"
    by (rule cycle_idle) simp
  then have n2: "?next ?w2 = ?w2"
    by (simp add: next_world_def)
  have three: "[0..<3] = [0, 1, 2]"
    by (simp add: upt_rec)
  from t h have "start 3 offline_env (process_content offline_env) False queued_world =
      (concat (map (\<lambda>i. fst (cycle offline_env (process_content offline_env)
                                ((?next ^^ i) queued_world))) [0..<3]),
       Still_running,
       (?next ^^ 3) queued_world)"
    by blast
  then have l: "start 3 offline_env (process_content offline_env) False queued_world =
     ([Get_next_task, Set_processing 7 True, Process_content 7, Print (Failure ''network''),
       Set_processing 7 False, Sleep 500,
       Get_next_task, Sleep 1000,
       Get_next_task, Sleep 1000],
      Still_running, ?w2)"
    by (simp add: three numeral_2_eq_2 numeral_3_eq_3 n1 n2 c1 idle)
  from c1 c2 l show ?thesis by (simp add: offline_pipeline)
qed

text \<open>
  The pass in which the first status message of the pipeline is cancelled: the mark is
  cleared, nothing is printed, and the loop has ended with the cancellation.
\<close>

lemma cancellation_ends_loop:
  "start 3 cancelled_env (process_content cancelled_env) False queued_world =
     ([Get_next_task, Set_processing 7 True, Process_content 7, Set_processing 7 False],
      Propagated CancelledError,
      queued_world\<lparr>task_queue := \<lparr>queue = [], processing = Map.empty\<rparr>\<rparr>)"
proof -
  let ?t = "\<lparr>user_id = 7,
             data = \<lparr>content_type = ''pdf'', content_paths = [''tmp/7_a.pdf''],
                     page_range = None, mode = ''extraction''\<rparr>,
             timestamp = 0\<rparr>"
  let ?w1 = "queued_world\<lparr>task_queue := \<lparr>queue = [], processing = [7 \<mapsto> 0]\<rparr>\<rparr>"
  have q: "queue (task_queue queued_world) = ?t # []"
    by (simp add: queued_world_def empty_world_def)
  have w1: "queued_world\<lparr>task_queue :=
      set_processing (clock cancelled_env) ((task_queue queued_world)\<lparr>queue := []\<rparr>)
        (user_id ?t) True\<rparr> = ?w1"
    by (simp add: queued_world_def empty_world_def set_processing_def cancelled_env_def
        quiet_env_def)
  have p: "process_content cancelled_env (user_id ?t) (content_type (data ?t))
      (content_paths (data ?t)) (page_range (data ?t)) (mode (data ?t))
      (queued_world\<lparr>task_queue :=
          set_processing (clock cancelled_env) ((task_queue queued_world)\<lparr>queue := []\<rparr>)
            (user_id ?t) True\<rparr>) = (Inl CancelledError, ?w1)"
    unfolding w1
    by (simp add: process_content_def process_content_body_def try_except_def then_do_def
        call_def cancelled_env_def quiet_env_def)
  have e: "\<not> is_exception CancelledError" by simp
  from worker_loop_cancelled [where process = "process_content cancelled_env"
      and env = cancelled_env and n = 2, OF q p e]
  show ?thesis
    by (simp add: set_processing_def numeral_3_eq_3)
qed

section \<open>Properties of the content pipeline\<close>

lemma normalize_stage:
  "(if ctype = ''pdf'' then
      then_do (call env (Send_message uid Processing_pdf)) (\<lambda>_.
        case paths of
          [] \<Rightarrow> raise IndexError
        | p # _ \<Rightarrow> lift (pdf_to_images env p prange))
    else
      then_do (call env (Send_message uid Processing_images)) (\<lambda>_.
        lift (load_images env paths))) =
   then_do (call env (Send_message uid (first_message ctype))) (\<lambda>_.
     lift (normalized env ctype paths prange))"
  by (cases paths) (simp_all add: first_message_def normalized_def raise_def lift_def)

text \<open>The run with no question extracted, step by step.\<close>

lemma process_content_body_no_questions:
  assumes n: "normalized env ctype paths prange = Inr images"
    and x: "process_images_parallel env images md (store w) = Inr ([], h)"
  shows "process_content_body env uid ctype paths prange md w =
    (case raises env (Send_message uid (first_message ctype)) of
       Some e \<Rightarrow> (Inl e, w)
     | None \<Rightarrow>
         call env (Edit_text No_questions_found)
           (w\<lparr>outbox := outbox w @ [Send_message uid (first_message ctype)], store := h\<rparr>))"
proof (cases "raises env (Send_message uid (first_message ctype))")
  case None
  with n x show ?thesis
    unfolding process_content_body_def normalize_stage
    by (simp add: then_do_def call_def lift_def run_extraction_def)
next
  case (Some e)
  then show ?thesis
    unfolding process_content_body_def normalize_stage
    by (simp add: then_do_def call_def)
qed

lemma process_content_no_questions_sessions:
  assumes n: "normalized env ctype paths prange = Inr images"
    and x: "process_images_parallel env images md (store w) = Inr ([], h)"
  shows "user_states (snd (process_content env uid ctype paths prange md w)) = user_states w"
  unfolding process_content_def try_except_def process_content_body_no_questions [OF n x]
  by (auto simp: call_def split: option.splits)

lemma process_content_no_questions_quiet:
  assumes n: "normalized env ctype paths prange = Inr images"
    and x: "process_images_parallel env images md (store w) = Inr ([], h)"
    and s: "raises env (Send_message uid (first_message ctype)) = None"
    and e: "raises env (Edit_text No_questions_found) = None"
  shows "process_content env uid ctype paths prange md w =
    (Inr (), w\<lparr>outbox := outbox w @
                 [Send_message uid (first_message ctype), Edit_text No_questions_found],
               store := h\<rparr>)"
  unfolding process_content_def try_except_def process_content_body_no_questions [OF n x]
  using s e by (simp add: call_def)

text \<open>
  C5. The code at a destination-selection callback for user 7, who has no session (the
  world is the initial one and no outbound call fails). For \<^verbatim>\<open>dest_gr_\<close> the handler
  raises \<^verbatim>\<open>KeyError\<close> after answering the query, and shows nothing. For \<^verbatim>\<open>dest_ch_\<close> it
  shows the posting notice and returns; \<^verbatim>\<open>post_quizzes_to_destination\<close> returns at once.
  Neither shows the session-expired reply, which the sibling branch \<^verbatim>\<open>post_\<close> does show.
\<close>

theorem dest_callback_without_session:
  "user_states empty_world 7 = None \<and>
   fst (handle_callback quiet_env 7 ''dest_gr_-1001_gen_7_x'' empty_world) =
     Inl (KeyError ''7'') \<and>
   outbox (snd (handle_callback quiet_env 7 ''dest_gr_-1001_gen_7_x'' empty_world)) =
     [Answer_query] \<and>
   fst (handle_callback quiet_env 7 ''dest_ch_-1001_gen_7_x'' empty_world) = Inr () \<and>
   outbox (snd (handle_callback quiet_env 7 ''dest_ch_-1001_gen_7_x'' empty_world)) =
     [Answer_query, Edit_text Posting_to_channel] \<and>
   outbox (snd (handle_callback quiet_env 7 ''post_gen_7_x'' empty_world)) =
     [Answer_query, Edit_text Session_expired]"
  by code_simp

text \<open>
  C6, as amended. When the Normalize stage succeeds and the extraction yields no question,
  \<^verbatim>\<open>process_content\<close> leaves \<^verbatim>\<open>user_states\<close> as it was, whatever the transport does: no
  session is created, and the session the owner had before the task is still there. When
  the two status calls go through, it returns normally and the last thing shown is that
  no questions were found.
\<close>

theorem no_questions_found_keeps_sessions:
  "normalized env ctype paths prange = Inr images \<and>
   process_images_parallel env images md (store w) = Inr ([], h) \<longrightarrow>
     user_states (snd (process_content env uid ctype paths prange md w)) = user_states w \<and>
     (raises env (Send_message uid (first_message ctype)) = None \<and>
      raises env (Edit_text No_questions_found) = None \<longrightarrow>
        fst (process_content env uid ctype paths prange md w) = Inr () \<and>
        outbox (snd (process_content env uid ctype paths prange md w)) =
          outbox w @ [Send_message uid (first_message ctype), Edit_text No_questions_found])"
proof (intro impI, elim conjE)
  assume n: "normalized env ctype paths prange = Inr images"
    and x: "process_images_parallel env images md (store w) = Inr ([], h)"
  have a: "user_states (snd (process_content env uid ctype paths prange md w)) = user_states w"
    using n x by (rule process_content_no_questions_sessions)
  have b: "raises env (Send_message uid (first_message ctype)) = None \<and>
      raises env (Edit_text No_questions_found) = None \<longrightarrow>
        fst (process_content env uid ctype paths prange md w) = Inr () \<and>
        outbox (snd (process_content env uid ctype paths prange md w)) =
          outbox w @ [Send_message uid (first_message ctype), Edit_text No_questions_found]"
    using process_content_no_questions_quiet [OF n x] by simp
  from a b show "user_states (snd (process_content env uid ctype paths prange md w)) = user_states w \<and>
     (raises env (Send_message uid (first_message ctype)) = None \<and>
      raises env (Edit_text No_questions_found) = None \<longrightarrow>
        fst (process_content env uid ctype paths prange md w) = Inr () \<and>
        outbox (snd (process_content env uid ctype paths prange md w)) =
          outbox w @ [Send_message uid (first_message ctype), Edit_text No_questions_found])"
    by (rule conjI)
qed

theorem no_questions_found_keeps_sessions_witness:
  "normalized quiet_env ''pdf'' [''tmp/7_a.pdf''] None = Inr [0] \<and>
   process_images_parallel quiet_env [0] ''extraction'' (store uploaded_world) =
     Inr ([], store uploaded_world) \<and>
   user_states uploaded_world 7 \<noteq> None \<and>
   user_states (snd (process_content quiet_env 7 ''pdf'' [''tmp/7_a.pdf''] None ''extraction''
       uploaded_world)) = user_states uploaded_world \<and>
   fst (process_content quiet_env 7 ''pdf'' [''tmp/7_a.pdf''] None ''extraction''
       uploaded_world) = Inr () \<and>
   outbox (snd (process_content quiet_env 7 ''pdf'' [''tmp/7_a.pdf''] None ''extraction''
       uploaded_world)) =
     outbox uploaded_world @ [Send_message 7 (first_message ''pdf''), Edit_text No_questions_found]"
proof -
  have n: "normalized quiet_env ''pdf'' [''tmp/7_a.pdf''] None = Inr [0]"
    by (simp add: normalized_def quiet_env_def)
  have x: "process_images_parallel quiet_env [0] ''extraction'' (store uploaded_world) =
     Inr ([], store uploaded_world)"
    by (simp add: quiet_env_def)
  have r: "raises quiet_env (Send_message 7 (first_message ''pdf'')) = None \<and>
      raises quiet_env (Edit_text No_questions_found) = None"
    by (simp add: quiet_env_def)
  have u: "user_states uploaded_world 7 \<noteq> None"
    by code_simp
  from n x r u
    no_questions_found_keeps_sessions [where env = quiet_env and ctype = "''pdf''"
      and paths = "[''tmp/7_a.pdf'']" and prange = None and images = "[0]"
      and md = "''extraction''" and w = uploaded_world and h = "store uploaded_world"
      and uid = 7]
  show ?thesis by blast
qed

text \<open>
  After the upload, the mode choice and the pass of the worker in which the extraction
  finds nothing, user 7 has been told that no questions were found and still has the
  session that the upload created.
\<close>

theorem upload_session_retained:
  "last (outbox after_no_questions) = Edit_text No_questions_found \<and>
   user_states after_no_questions 7 =
     Some (empty_session\<lparr>s_content_type := Some ''pdf'',
                          s_content_paths := Some [''tmp/7_a.pdf''],
                          s_mode := Some ''extraction''\<rparr>)"
  by code_simp

text \<open>
  C7. The code on the raw input of user 7's task: the file is still there after the pass
  in which the extraction finds nothing, and after the pass in which the extraction
  raises; it is deleted only by the pass that runs to the end of \<^verbatim>\<open>process_content\<close>.
\<close>

theorem raw_inputs_not_deleted:
  "file_system uploaded_world ''tmp/7_a.pdf'' = Some Raw_input \<and>
   file_system after_no_questions ''tmp/7_a.pdf'' = Some Raw_input \<and>
   file_system after_broken_extraction ''tmp/7_a.pdf'' = Some Raw_input \<and>
   last (outbox after_broken_extraction) = Send_message 7 (Error_message (Failure ''extraction'')) \<and>
   file_system after_one_question ''tmp/7_a.pdf'' = None"
  by code_simp

section \<open>Properties of the posting pipeline\<close>

lemma post_quizzes_unfold:
  assumes "user_states w uid = Some sess"
  shows "post_quizzes_to_destination env uid chat thread w =
    (case s_questions sess of
       None \<Rightarrow> (Inl (KeyError ''questions''), w)
     | Some questions \<Rightarrow>
         (case get_user_settings env uid of
            Inl e \<Rightarrow> (Inl e, w)
          | Inr settings \<Rightarrow>
              (case raises env (Edit_text (Posting_quizzes (length questions))) of
                 Some e \<Rightarrow> (Inl e, w)
               | None \<Rightarrow>
                   (case post_quizzes_batch env chat (map (deref (store w)) questions)
                           settings thread of
                      (success, failed) \<Rightarrow>
                        (case raises env (Edit_text (Complete success failed)) of
                           Some e \<Rightarrow>
                             (Inl e, w\<lparr>outbox := outbox w @
                                [Edit_text (Posting_quizzes (length questions))]\<rparr>)
                         | None \<Rightarrow>
                             (Inr (), w\<lparr>outbox := outbox w @
                                [Edit_text (Posting_quizzes (length questions)),
                                 Edit_text (Complete success failed)],
                                user_states := (user_states w)(uid := None)\<rparr>))))))"
  using assms
  by (simp add: post_quizzes_to_destination_def then_do_def raise_def ret_def lift_def
      call_def modify_def split_beta
      split: option.splits sum.splits)

lemma post_quizzes_completed:
  assumes s: "user_states w uid = Some sess"
    and ok: "fst (post_quizzes_to_destination env uid chat thread w) = Inr ()"
  shows "\<exists>questions settings. s_questions sess = Some questions \<and>
      get_user_settings env uid = Inr settings \<and>
      (case post_quizzes_batch env chat (map (deref (store w)) questions) settings thread of
         (success, failed) \<Rightarrow>
           outbox (snd (post_quizzes_to_destination env uid chat thread w)) =
             outbox w @ [Edit_text (Posting_quizzes (length questions)),
                         Edit_text (Complete success failed)])"
    and "user_states (snd (post_quizzes_to_destination env uid chat thread w)) =
      (user_states w)(uid := None)"
  using ok unfolding post_quizzes_unfold [OF s]
  by (auto split: option.splits sum.splits prod.splits)

lemma post_quizzes_returns:
  assumes s: "user_states w uid = Some sess"
    and q: "s_questions sess = Some questions"
    and g: "get_user_settings env uid = Inr settings"
    and r: "\<forall>a. raises env a = None"
  shows "fst (post_quizzes_to_destination env uid chat thread w) = Inr ()"
  unfolding post_quizzes_unfold [OF s] using q g r
  by (simp split: prod.splits)

text \<open>
  C8. When \<^verbatim>\<open>post_quizzes_to_destination\<close> runs for an owner who has a session and
  completes, the last two things shown are the posting notice and the final success and
  failed counts that the batch returned, whatever they are, and the owner's session has
  been removed (no other session is touched). It does complete when the session holds
  questions, the settings are available and no status call fails.
\<close>

theorem posting_clears_session:
  "(user_states w uid = Some sess \<and>
    fst (post_quizzes_to_destination env uid chat thread w) = Inr () \<longrightarrow>
      (\<exists>questions settings. s_questions sess = Some questions \<and>
         get_user_settings env uid = Inr settings \<and>
         (case post_quizzes_batch env chat (map (deref (store w)) questions) settings thread of
            (success, failed) \<Rightarrow>
              outbox (snd (post_quizzes_to_destination env uid chat thread w)) =
                outbox w @ [Edit_text (Posting_quizzes (length questions)),
                            Edit_text (Complete success failed)])) \<and>
      user_states (snd (post_quizzes_to_destination env uid chat thread w)) =
        (user_states w)(uid := None)) \<and>
   (user_states w uid = Some sess \<and> s_questions sess = Some qs \<and>
    get_user_settings env uid = Inr st \<and> (\<forall>a. raises env a = None) \<longrightarrow>
      fst (post_quizzes_to_destination env uid chat thread w) = Inr ())"
proof (intro conjI impI)
  assume a: "user_states w uid = Some sess \<and>
    fst (post_quizzes_to_destination env uid chat thread w) = Inr ()"
  then have s: "user_states w uid = Some sess"
    and ok: "fst (post_quizzes_to_destination env uid chat thread w) = Inr ()"
    by simp_all
  show "\<exists>questions settings. s_questions sess = Some questions \<and>
         get_user_settings env uid = Inr settings \<and>
         (case post_quizzes_batch env chat (map (deref (store w)) questions) settings thread of
            (success, failed) \<Rightarrow>
              outbox (snd (post_quizzes_to_destination env uid chat thread w)) =
                outbox w @ [Edit_text (Posting_quizzes (length questions)),
                            Edit_text (Complete success failed)])"
    using s ok by (rule post_quizzes_completed(1))
  show "user_states (snd (post_quizzes_to_destination env uid chat thread w)) =
        (user_states w)(uid := None)"
    using s ok by (rule post_quizzes_completed(2))
next
  assume "user_states w uid = Some sess \<and> s_questions sess = Some qs \<and>
    get_user_settings env uid = Inr st \<and> (\<forall>a. raises env a = None)"
  then show "fst (post_quizzes_to_destination env uid chat thread w) = Inr ()"
    using post_quizzes_returns [of w uid sess qs env st chat thread] by blast
qed

theorem posting_clears_session_witness:
  "user_states after_one_question 7 \<noteq> None \<and>
   fst (post_quizzes_to_destination failing_posts_env 7 (- 1001) None after_one_question) =
     Inr () \<and>
   user_states
     (snd (post_quizzes_to_destination failing_posts_env 7 (- 1001) None after_one_question)) 7 =
     None \<and>
   outbox
     (snd (post_quizzes_to_destination failing_posts_env 7 (- 1001) None after_one_question)) =
     outbox after_one_question @ [Edit_text (Posting_quizzes 1), Edit_text (Complete 0 1)]"
proof -
  let ?sess = "empty_session\<lparr>s_questions := Some [spaced_question],
      s_session_id := Some ''gen_7_20240101_000000'',
      s_csv_path := Some ''out/questions_gen_7_20240101_000000.csv'',
      s_source := Some ''generated''\<rparr>"
  have s: "user_states after_one_question 7 = Some ?sess"
    by code_simp
  have q: "s_questions ?sess = Some [spaced_question]"
    by (simp add: empty_session_def)
  have g: "get_user_settings failing_posts_env 7 = Inr (''Q'', ''T'')"
    by (simp add: failing_posts_env_def quiet_env_def)
  have r: "\<forall>a. raises failing_posts_env a = None"
    by (simp add: failing_posts_env_def quiet_env_def)
  note t = posting_clears_session [where w = after_one_question and uid = 7 and sess = ?sess
      and env = failing_posts_env and chat = "- 1001" and thread = None
      and qs = "[spaced_question]" and st = "(''Q'', ''T'')"]
  from t s q g r
  have ok: "fst (post_quizzes_to_destination failing_posts_env 7 (- 1001) None
      after_one_question) = Inr ()"
    by blast
  with t s
  have "user_states
      (snd (post_quizzes_to_destination failing_posts_env 7 (- 1001) None after_one_question)) =
      (user_states after_one_question)(7 := None)"
    by blast
  then have gone: "user_states
      (snd (post_quizzes_to_destination failing_posts_env 7 (- 1001) None after_one_question)) 7 =
      None"
    by simp
  have shown: "outbox
     (snd (post_quizzes_to_destination failing_posts_env 7 (- 1001) None after_one_question)) =
     outbox after_one_question @ [Edit_text (Posting_quizzes 1), Edit_text (Complete 0 1)]"
    by code_simp
  from s ok gone shown show ?thesis by simp
qed

section \<open>The padding of option lists\<close>

lemma questions_to_csv_store:
  "fst (questions_to_csv h fs qs path) =
     (\<lambda>a. if a \<in> options ` set qs then pad_options (h a) else h a)"
  by (simp add: questions_to_csv_def write_rows_eq)

lemma process_content_questions:
  assumes n: "normalized env ctype paths prange = Inr images"
    and x: "process_images_parallel env images md (store w) = Inr (qs, h)"
    and ne: "qs \<noteq> []"
    and s: "raises env (Send_message uid (first_message ctype)) = None"
  shows "Option.bind (user_states (snd (process_content env uid ctype paths prange md w)) uid)
           s_questions = Some qs"
    and "store (snd (process_content env uid ctype paths prange md w)) =
           fst (questions_to_csv h (file_system w) qs (artifact_path env uid))"
  using n x ne s
  unfolding process_content_def try_except_def process_content_body_def normalize_stage
  by (auto simp: then_do_def call_def lift_def run_extraction_def modify_def Let_def split_beta
      artifact_path_def generated_id_def empty_session_def
      split: option.splits)

lemma session_questions_after:
  assumes n: "normalized env ctype paths prange = Inr images"
    and x: "process_images_parallel env images md (store w) = Inr (qs, h)"
    and ne: "qs \<noteq> []"
    and s: "raises env (Send_message uid (first_message ctype)) = None"
  shows "session_questions (snd (process_content env uid ctype paths prange md w)) uid =
    Some (map (\<lambda>q. deref (\<lambda>a. if a \<in> options ` set qs then pad_options (h a) else h a) q) qs)"
proof -
  let ?w = "snd (process_content env uid ctype paths prange md w)"
  from process_content_questions(1) [OF n x ne s]
  obtain sess where u: "user_states ?w uid = Some sess" and q: "s_questions sess = Some qs"
    by (cases "user_states ?w uid") auto
  from process_content_questions(2) [OF n x ne s]
  have "store ?w = (\<lambda>a. if a \<in> options ` set qs then pad_options (h a) else h a)"
    by (simp add: questions_to_csv_store)
  with u q show ?thesis by (simp add: session_questions_def)
qed

text \<open>
  C10, as amended. \<^verbatim>\<open>questions_to_csv\<close> changes the caller's lists in place: after it, the
  option list of every question in the list it was given is the list it was before,
  followed by empty strings up to length 5, so its length is the larger of 5 and the
  length before: exactly 5 for a list that had at most 5 elements, and unchanged for a
  longer one. No other list in the store changes. The session that \<^verbatim>\<open>process_content\<close>
  stores holds the same question objects, so the question list read from the session for
  posting has the padded option lists.
\<close>

theorem questions_to_csv_pads_in_place:
  "(\<forall>q \<in> set qs.
      fst (questions_to_csv h fs qs path) (options q) =
        h (options q) @ replicate (5 - length (h (options q))) [] \<and>
      length (fst (questions_to_csv h fs qs path) (options q)) =
        max 5 (length (h (options q)))) \<and>
   (\<forall>a. a \<notin> options ` set qs \<longrightarrow> fst (questions_to_csv h fs qs path) a = h a) \<and>
   (normalized env ctype paths prange = Inr images \<and>
    process_images_parallel env images md (store w) = Inr (qs, h) \<and> qs \<noteq> [] \<and>
    raises env (Send_message uid (first_message ctype)) = None \<longrightarrow>
      Option.bind (user_states (snd (process_content env uid ctype paths prange md w)) uid)
        s_questions = Some qs \<and>
      session_questions (snd (process_content env uid ctype paths prange md w)) uid =
        Some (map (\<lambda>q. (deref h q)
                \<lparr>options := h (options q) @ replicate (5 - length (h (options q))) []\<rparr>) qs))"
proof (intro conjI ballI allI impI)
  fix q assume "q \<in> set qs"
  then show "fst (questions_to_csv h fs qs path) (options q) =
      h (options q) @ replicate (5 - length (h (options q))) []"
    by (simp add: questions_to_csv_store pad_options_eq)
  then show "length (fst (questions_to_csv h fs qs path) (options q)) =
      max 5 (length (h (options q)))"
    by (simp add: max_def)
next
  fix a assume "a \<notin> options ` set qs"
  then show "fst (questions_to_csv h fs qs path) a = h a"
    by (simp add: questions_to_csv_store)
next
  assume a: "normalized env ctype paths prange = Inr images \<and>
    process_images_parallel env images md (store w) = Inr (qs, h) \<and> qs \<noteq> [] \<and>
    raises env (Send_message uid (first_message ctype)) = None"
  then have n: "normalized env ctype paths prange = Inr images"
    and x: "process_images_parallel env images md (store w) = Inr (qs, h)"
    and ne: "qs \<noteq> []"
    and s: "raises env (Send_message uid (first_message ctype)) = None"
    by simp_all
  show "Option.bind (user_states (snd (process_content env uid ctype paths prange md w)) uid)
        s_questions = Some qs"
    using n x ne s by (rule process_content_questions(1))
  have "map (\<lambda>q. deref (\<lambda>a. if a \<in> options ` set qs then pad_options (h a) else h a) q) qs =
      map (\<lambda>q. (deref h q)
                \<lparr>options := h (options q) @ replicate (5 - length (h (options q))) []\<rparr>) qs"
    by (simp add: deref_def pad_options_eq)
  with session_questions_after [OF n x ne s]
  show "session_questions (snd (process_content env uid ctype paths prange md w)) uid =
        Some (map (\<lambda>q. (deref h q)
                \<lparr>options := h (options q) @ replicate (5 - length (h (options q))) []\<rparr>) qs)"
    by simp
qed

theorem questions_to_csv_pads_in_place_witness:
  "fst (questions_to_csv example_heap Map.empty [spaced_question, plain_question] ''out.csv'') 0 =
     [''x'', ''y'', [], [], []] \<and>
   fst (questions_to_csv example_heap Map.empty [spaced_question, plain_question] ''out.csv'') 1 =
     [''p'', ''q'', ''r'', [], []] \<and>
   fst (questions_to_csv example_heap Map.empty [spaced_question, plain_question] ''out.csv'') 2 =
     example_heap 2 \<and>
   session_questions
     (snd (process_content one_question_env 7 ''pdf'' [''tmp/7_a.pdf''] None ''extraction''
        uploaded_world)) 7 =
     Some [\<lparr>question_description = '' a'', options = [''x'', ''y'', [], [], []],
            correct_answer_index = 0, correct_option = ''A'', explanation = ''''\<rparr>]"
proof -
  let ?h = "(store uploaded_world)(0 := [''x'', ''y''])"
  note t1 = questions_to_csv_pads_in_place [where qs = "[spaced_question, plain_question]"
      and h = example_heap and fs = Map.empty and path = "''out.csv''"]
  have o: "options spaced_question = 0" "options plain_question = 1"
    by (simp_all add: spaced_question_def plain_question_def)
  from t1 have "\<forall>q \<in> set [spaced_question, plain_question].
      fst (questions_to_csv example_heap Map.empty [spaced_question, plain_question] ''out.csv'')
        (options q) =
      example_heap (options q) @ replicate (5 - length (example_heap (options q))) []"
    by blast
  then have a: "fst (questions_to_csv example_heap Map.empty [spaced_question, plain_question]
        ''out.csv'') 0 = [''x'', ''y'', [], [], []]"
    and b: "fst (questions_to_csv example_heap Map.empty [spaced_question, plain_question]
        ''out.csv'') 1 = [''p'', ''q'', ''r'', [], []]"
    by (simp_all add: o example_heap_def numeral_eq_Suc)
  from t1 have "\<forall>a. a \<notin> options ` set [spaced_question, plain_question] \<longrightarrow>
      fst (questions_to_csv example_heap Map.empty [spaced_question, plain_question] ''out.csv'') a =
      example_heap a"
    by blast
  from this [rule_format, of 2]
  have c: "fst (questions_to_csv example_heap Map.empty [spaced_question, plain_question]
        ''out.csv'') 2 = example_heap 2"
    by (simp add: o)
  note t2 = questions_to_csv_pads_in_place [where qs = "[spaced_question]" and h = ?h
      and env = one_question_env and ctype = "''pdf''" and paths = "[''tmp/7_a.pdf'']"
      and prange = None and images = "[0]" and md = "''extraction''" and w = uploaded_world
      and uid = 7]
  have n: "normalized one_question_env ''pdf'' [''tmp/7_a.pdf''] None = Inr [0]"
    by (simp add: normalized_def one_question_env_def quiet_env_def)
  have x: "process_images_parallel one_question_env [0] ''extraction'' (store uploaded_world) =
      Inr ([spaced_question], ?h)"
    by (simp add: one_question_env_def quiet_env_def)
  have s: "raises one_question_env (Send_message 7 (first_message ''pdf'')) = None"
    by (simp add: one_question_env_def quiet_env_def)
  from t2 n x s
  have "session_questions
     (snd (process_content one_question_env 7 ''pdf'' [''tmp/7_a.pdf''] None ''extraction''
        uploaded_world)) 7 =
     Some (map (\<lambda>q. (deref ?h q)
              \<lparr>options := ?h (options q) @ replicate (5 - length (?h (options q))) []\<rparr>)
            [spaced_question])"
    by blast
  then have d: "session_questions
     (snd (process_content one_question_env 7 ''pdf'' [''tmp/7_a.pdf''] None ''extraction''
        uploaded_world)) 7 =
     Some [\<lparr>question_description = '' a'', options = [''x'', ''y'', [], [], []],
            correct_answer_index = 0, correct_option = ''A'', explanation = ''''\<rparr>]"
    by (simp add: deref_def spaced_question_def numeral_eq_Suc)
  from a b c d show ?thesis by simp
qed

text \<open>
  A question with six options keeps its six options: after \<^verbatim>\<open>questions_to_csv\<close> its list
  does not have exactly 5 elements.
\<close>

theorem questions_to_csv_pads_in_place_counterexample:
  "length (six_heap (options six_question)) = 6 \<and>
   length (fst (questions_to_csv six_heap Map.empty [six_question] ''out.csv'')
     (options six_question)) = 6"
  by code_simp

end
